theory Spec2Isabelle
  imports Complex_Main "HOL-Library.Word"
begin

unbundle bit_operations_syntax

section \<open>Common data\<close>

text \<open>
  A byte of a file is an 8-bit word. A double is handled in two ways: where the code only
  moves it between memory and a file it is its 64-bit pattern, and where the code compares
  or calculates with it the arithmetic is the one of the real numbers (rounding, infinities
  and NaN are outside this development). The two views are connected by the parameters
  \<open>val\<close> (pattern to number) and \<open>bits\<close> (number to pattern) of the functions below.
\<close>

type_synonym byte = "8 word"

datatype error =
    OutOfRange           \<comment> \<open>ValueError "JD ... outside ephemeris range"\<close>
  | BodyNotFound         \<comment> \<open>ValueError "Body ... not found"\<close>
  | IndexError           \<comment> \<open>list index out of range\<close>
  | ZeroDivisionError    \<comment> \<open>float division by zero\<close>
  | BufferError          \<comment> \<open>numpy: buffer size must be a multiple of element size\<close>
  | ReshapeError         \<comment> \<open>numpy: cannot reshape array\<close>
  | StructError          \<comment> \<open>struct.error: argument out of range or wrong buffer length\<close>
  | KeyError             \<comment> \<open>missing dict key\<close>
  | UnicodeEncodeError   \<comment> \<open>a character that the codec cannot encode\<close>

text \<open>Python's \<open>xs[a:b]\<close> for \<open>0 \<le> a \<le> b\<close>: shorter when the data ends early.\<close>

definition slice :: "'a list \<Rightarrow> nat \<Rightarrow> nat \<Rightarrow> 'a list" where
  "slice xs a b = take (b - a) (drop a xs)"

text \<open>Python's \<open>xs[i]\<close>: a negative index counts from the end, out of range raises.\<close>

definition py_get :: "'a list \<Rightarrow> int \<Rightarrow> error + 'a" where
  "py_get xs i =
     (if 0 \<le> i \<and> i < int (length xs) then Inr (xs ! nat i)
      else if i < 0 \<and> - int (length xs) \<le> i then Inr (xs ! nat (int (length xs) + i))
      else Inl IndexError)"

text \<open>Little-endian and big-endian readings of a byte string as an unsigned number.\<close>

fun le_nat :: "byte list \<Rightarrow> nat" where
  "le_nat [] = 0"
| "le_nat (b # bs) = unat b + 256 * le_nat bs"

definition be_nat :: "byte list \<Rightarrow> nat" where
  "be_nat bs = le_nat (rev bs)"

text \<open>The \<open>n\<close> low bytes of a number, least significant first.\<close>

fun le_bytes :: "nat \<Rightarrow> nat \<Rightarrow> byte list" where
  "le_bytes 0 v = []"
| "le_bytes (Suc n) v = of_nat (v mod 256) # le_bytes n (v div 256)"

section \<open>The query engine (eph\_reader.py)\<close>

record eph_header =
  version :: nat
  num_bodies :: nat
  num_intervals :: nat
  interval_days :: real
  start_jd :: real
  end_jd :: real
  coeff_degree :: nat

record body_entry =
  name :: string
  data_offset :: nat

text \<open>
  The state of an \<open>EphReader\<close> after \<open>__init__\<close>: the parsed header, the body table
  (a dict keyed by body id), the interval index, and the bytes of the file at
  \<open>self.filepath\<close>, which every coefficient read opens again.
\<close>

record eph_reader =
  header :: eph_header
  bodies :: "int \<rightharpoonup> body_entry"
  intervals :: "(real \<times> real) list"
  file_bytes :: "byte list"

subsection \<open>\<open>_find_interval\<close>\<close>

function find_interval_loop ::
  "(real \<times> real) list \<Rightarrow> real \<Rightarrow> int \<Rightarrow> int \<Rightarrow> error + int" where
  "find_interval_loop ivs jd left right =
     (if left \<le> right then
        (let mid = (left + right) div 2 in
         case py_get ivs mid of
           Inl e \<Rightarrow> Inl e
         | Inr (iv_start, iv_end) \<Rightarrow>
             if jd < iv_start then find_interval_loop ivs jd left (mid - 1)
             else if jd > iv_end then find_interval_loop ivs jd (mid + 1) right
             else Inr mid)
      else
        \<comment> \<open>the message of the ValueError reads \<open>intervals[0]\<close> and \<open>intervals[-1]\<close>\<close>
        (case py_get ivs 0 of Inl e \<Rightarrow> Inl e | Inr _ \<Rightarrow> Inl OutOfRange))"
  by pat_completeness auto
termination
  by (relation "measure (\<lambda>(ivs, jd, left, right). nat (right - left + 1))") auto

definition find_interval :: "eph_reader \<Rightarrow> real \<Rightarrow> error + int" where
  "find_interval rd jd = find_interval_loop (intervals rd) jd 0 (int (length (intervals rd)) - 1)"

subsection \<open>\<open>_read_coefficients\<close>\<close>

text \<open>\<open>np.frombuffer(data, dtype=np.float64)\<close>: consecutive little-endian 8-byte groups.\<close>

definition frombuffer :: "byte list \<Rightarrow> error + 64 word list" where
  "frombuffer data =
     (if length data mod 8 \<noteq> 0 then Inl BufferError
      else Inr (map (\<lambda>k. of_nat (le_nat (slice data (8 * k) (8 * k + 8)))) [0..<length data div 8]))"

text \<open>\<open>a.reshape(3, d)\<close> of a flat array: three rows of \<open>d\<close> entries.\<close>

definition reshape3 :: "nat \<Rightarrow> 'a list \<Rightarrow> error + 'a list list" where
  "reshape3 d cs =
     (if length cs \<noteq> 3 * d then Inl ReshapeError
      else Inr (map (\<lambda>r. slice cs (r * d) (r * d + d)) [0..<3]))"

definition coeff_size :: "eph_reader \<Rightarrow> nat" where
  "coeff_size rd = 3 * coeff_degree (header rd) * 8"

definition coeff_offset :: "body_entry \<Rightarrow> eph_reader \<Rightarrow> nat \<Rightarrow> nat" where
  "coeff_offset body rd interval_idx = data_offset body + interval_idx * coeff_size rd"

definition read_coefficients ::
  "eph_reader \<Rightarrow> int \<Rightarrow> nat \<Rightarrow> error + 64 word list list" where
  "read_coefficients rd body_id interval_idx =
     (case bodies rd body_id of
        None \<Rightarrow> Inl BodyNotFound
      | Some body \<Rightarrow>
          (let degree = coeff_degree (header rd);
               offset = coeff_offset body rd interval_idx;
               data = take (coeff_size rd) (drop offset (file_bytes rd))
           in case frombuffer data of
                Inl e \<Rightarrow> Inl e
              | Inr coeffs \<Rightarrow> reshape3 degree coeffs))"

subsection \<open>\<open>_chebyshev_eval\<close>\<close>

text \<open>The backward loop \<open>for i in range(len(coeffs) - 1, 0, -1)\<close>, on \<open>(bn1, bn2)\<close>.\<close>

fun clenshaw_loop :: "real list \<Rightarrow> real \<Rightarrow> nat \<Rightarrow> real \<times> real \<Rightarrow> real \<times> real" where
  "clenshaw_loop coeffs t 0 (bn1, bn2) = (bn1, bn2)"
| "clenshaw_loop coeffs t (Suc i) (bn1, bn2) =
     clenshaw_loop coeffs t i (coeffs ! Suc i + 2 * t * bn1 - bn2, bn1)"

definition chebyshev_eval :: "real list \<Rightarrow> real \<Rightarrow> real" where
  "chebyshev_eval coeffs t_normalized =
     (if length coeffs = 0 then 0
      else if length coeffs = 1 then coeffs ! 0
      else (let (bn1, bn2) = clenshaw_loop coeffs t_normalized (length coeffs - 1) (0, 0)
            in coeffs ! 0 + t_normalized * bn1 - bn2))"

subsection \<open>\<open>compute\<close>\<close>

text \<open>The normalized time of step 2, with Python's float division raising on zero.\<close>

definition normalize_time :: "real \<Rightarrow> real \<times> real \<Rightarrow> error + real" where
  "normalize_time jd iv =
     (case iv of (jd_start, jd_end) \<Rightarrow>
        if jd_end - jd_start = 0 then Inl ZeroDivisionError
        else Inr (2 * (jd - jd_start) / (jd_end - jd_start) - 1))"

text \<open>The result is the dict \<open>{'pos': pos}\<close>, kept as the list of its items.\<close>

definition compute ::
  "(64 word \<Rightarrow> real) \<Rightarrow> eph_reader \<Rightarrow> int \<Rightarrow> real \<Rightarrow> error + (string \<times> real list) list" where
  "compute val rd body_id jd =
     (case find_interval rd jd of
        Inl e \<Rightarrow> Inl e
      | Inr interval_idx \<Rightarrow>
          (case py_get (intervals rd) interval_idx of
             Inl e \<Rightarrow> Inl e
           | Inr iv \<Rightarrow>
               (case normalize_time jd iv of
                  Inl e \<Rightarrow> Inl e
                | Inr t_normalized \<Rightarrow>
                    (case read_coefficients rd body_id (nat interval_idx) of
                       Inl e \<Rightarrow> Inl e
                     | Inr coeffs \<Rightarrow>
                         Inr [(''pos'',
                               [chebyshev_eval (map val (coeffs ! 0)) t_normalized,
                                chebyshev_eval (map val (coeffs ! 1)) t_normalized,
                                chebyshev_eval (map val (coeffs ! 2)) t_normalized])]))))"

text \<open>
  A container whose interval index tiles \<open>[s, e]\<close> contiguously: it is not empty, starts at
  \<open>s\<close>, ends at \<open>e\<close>, every interval has positive length and ends where the next starts.
\<close>

fun tiles :: "(real \<times> real) list \<Rightarrow> real \<Rightarrow> real \<Rightarrow> bool" where
  "tiles [] s e = False"
| "tiles [(a, b)] s e = (a = s \<and> b = e \<and> a < b)"
| "tiles ((a, b) # iv # ivs) s e = (a = s \<and> a < b \<and> tiles (iv # ivs) b e)"

text \<open>
  The bisection of the index range \<open>[left, right]\<close> seen from two neighbouring indices
  \<open>j\<close> and \<open>j + 1\<close>: the first midpoint \<open>(left + right) div 2\<close> that is one of the
  two, where the bisection continues below a midpoint above \<open>j + 1\<close> and above a
  midpoint below \<open>j\<close>. It depends on the indices only, not on the dates.
\<close>

function first_probe :: "int \<Rightarrow> int \<Rightarrow> int \<Rightarrow> int" where
  "first_probe left right j =
     (if left \<le> right then
        (let mid = (left + right) div 2 in
         if mid = j \<or> mid = j + 1 then mid
         else if j + 1 < mid then first_probe left (mid - 1) j
         else first_probe (mid + 1) right j)
      else - 1)"
  by pat_completeness auto
termination
  by (relation "measure (\<lambda>(left, right, j). nat (right - left + 1))") auto

text \<open>
  A small container for the concrete checks below: one body (399) at degree 1 over three
  16-day intervals, laid out as the encoder lays it out (data at 512 + 36 + 3 * 16 = 596,
  six doubles per block). The eighteen doubles of the coefficient area are numbered
  0 to 17 in their low byte, so that a read shows which doubles it fetched.
\<close>

definition example_reader :: eph_reader where
  "example_reader =
     \<lparr>header = \<lparr>version = 1, num_bodies = 1, num_intervals = 3, interval_days = 16,
                start_jd = 2451545, end_jd = 2451593, coeff_degree = 1\<rparr>,
      bodies = [399 \<mapsto> \<lparr>name = ''Earth'', data_offset = 596\<rparr>],
      intervals = [(2451545, 2451561), (2451561, 2451577), (2451577, 2451593)],
      file_bytes = replicate 596 0 @ concat (map (le_bytes 8) [0..<18])\<rparr>"

definition example_val :: "64 word \<Rightarrow> real" where
  "example_val w = real (unat w)"

section \<open>The encoder (spice2eph.py)\<close>

definition BODY_NAMES :: "int \<rightharpoonup> string" where
  "BODY_NAMES = map_of
     [(0, ''SSB''), (1, ''Mercury''), (2, ''Venus''), (3, ''EMB''), (4, ''Mars''),
      (5, ''Jupiter''), (6, ''Saturn''), (7, ''Uranus''), (8, ''Neptune''), (9, ''Pluto''),
      (10, ''Sun''), (199, ''Mercury''), (299, ''Venus''), (399, ''Earth''), (499, ''Mars''),
      (599, ''Jupiter''), (699, ''Saturn''), (799, ''Uranus''), (899, ''Neptune''),
      (999, ''Pluto''), (301, ''Moon'')]"

text \<open>Python's decimal rendering of an integer, as in \<open>f"Body{body_id}"\<close>.\<close>

fun str_nat :: "nat \<Rightarrow> string" where
  "str_nat n = (if n < 10 then [char_of (48 + n)] else str_nat (n div 10) @ [char_of (48 + n mod 10)])"

definition str_int :: "int \<Rightarrow> string" where
  "str_int i = (if i < 0 then CHR ''-'' # str_nat (nat (- i)) else str_nat (nat i))"

definition body_name_of :: "int \<Rightarrow> string" where
  "body_name_of body_id =
     (case BODY_NAMES body_id of Some n \<Rightarrow> n | None \<Rightarrow> ''Body'' @ str_int body_id)"

text \<open>\<open>s.encode('ascii')\<close> raises on a character outside ASCII.\<close>

definition encode_ascii :: "string \<Rightarrow> error + byte list" where
  "encode_ascii s =
     (if list_all (\<lambda>c. (of_char c :: nat) < 128) s then Inr (map of_char s)
      else Inl UnicodeEncodeError)"

definition ljust :: "nat \<Rightarrow> 'a \<Rightarrow> 'a list \<Rightarrow> 'a list" where
  "ljust n pad bs = bs @ replicate (n - length bs) pad"

text \<open>\<open>body_name.encode('ascii')[:24].ljust(24, b'\x00')\<close>\<close>

definition name_bytes_of :: "string \<Rightarrow> error + byte list" where
  "name_bytes_of body_name =
     (case encode_ascii body_name of
        Inl e \<Rightarrow> Inl e
      | Inr bs \<Rightarrow> Inr (ljust 24 0 (take 24 bs)))"

subsection \<open>\<open>struct.pack\<close> with little-endian standard sizes\<close>

definition pack_I :: "int \<Rightarrow> error + byte list" where
  "pack_I v = (if 0 \<le> v \<and> v < 2 ^ 32 then Inr (le_bytes 4 (nat v)) else Inl StructError)"

definition pack_i :: "int \<Rightarrow> error + byte list" where
  "pack_i v =
     (if - (2 ^ 31) \<le> v \<and> v < 2 ^ 31 then Inr (le_bytes 4 (nat (v mod 2 ^ 32)))
      else Inl StructError)"

definition pack_Q :: "int \<Rightarrow> error + byte list" where
  "pack_Q v = (if 0 \<le> v \<and> v < 2 ^ 64 then Inr (le_bytes 8 (nat v)) else Inl StructError)"

definition pack_d :: "(real \<Rightarrow> 64 word) \<Rightarrow> real \<Rightarrow> byte list" where
  "pack_d bits v = le_bytes 8 (unat (bits v))"

text \<open>The format \<open>24s\<close> pads a shorter argument with NUL bytes and cuts a longer one.\<close>

definition pack_24s :: "byte list \<Rightarrow> byte list" where
  "pack_24s bs = take 24 bs @ replicate (24 - length bs) 0"

text \<open>A loop \<open>for item in items: f.write(pack(item))\<close>: the first exception ends it.\<close>

fun write_all :: "('a \<Rightarrow> error + byte list) \<Rightarrow> 'a list \<Rightarrow> error + byte list" where
  "write_all pack [] = Inr []"
| "write_all pack (item # items) =
     (case pack item of
        Inl e \<Rightarrow> Inl e
      | Inr entry \<Rightarrow>
          (case write_all pack items of Inl e \<Rightarrow> Inl e | Inr later \<Rightarrow> Inr (entry @ later)))"

subsection \<open>\<open>_write_eph_file\<close>\<close>

text \<open>One entry of a body's \<open>coeffs_list\<close>: the dict with the keys \<open>x\<close>, \<open>y\<close>, \<open>z\<close>.\<close>

record coeff_block =
  x_coeffs :: "real list"
  y_coeffs :: "real list"
  z_coeffs :: "real list"

text \<open>\<open>all_coeffs\<close> is a dict from body id to \<open>coeffs_list\<close>, kept as the list of its items.\<close>

type_synonym all_coeffs = "(int \<times> coeff_block list) list"

definition MAGIC :: "byte list" where
  "MAGIC = [69, 80, 72, 0]"

definition VERSION :: int where "VERSION = 1"
definition HEADER_SIZE :: int where "HEADER_SIZE = 512"
definition BODY_ENTRY_SIZE :: int where "BODY_ENTRY_SIZE = 36"
definition INTERVAL_ENTRY_SIZE :: int where "INTERVAL_ENTRY_SIZE = 16"

text \<open>\<open>struct.pack('<4sIIIdddI', ...)\<close> followed by the zero padding to 512 bytes.\<close>

definition pack_header ::
  "(real \<Rightarrow> 64 word) \<Rightarrow> int \<Rightarrow> int \<Rightarrow> real \<Rightarrow> real \<Rightarrow> real \<Rightarrow> int \<Rightarrow> error + byte list" where
  "pack_header bits n_bodies n_intervals interval_days' start_jd' end_jd' coeff_degree' =
     (case pack_I VERSION of Inl e \<Rightarrow> Inl e | Inr ver \<Rightarrow>
      case pack_I n_bodies of Inl e \<Rightarrow> Inl e | Inr nb \<Rightarrow>
      case pack_I n_intervals of Inl e \<Rightarrow> Inl e | Inr ni \<Rightarrow>
      case pack_I coeff_degree' of Inl e \<Rightarrow> Inl e | Inr deg \<Rightarrow>
        (let hdr = MAGIC @ ver @ nb @ ni @ pack_d bits interval_days' @
                      pack_d bits start_jd' @ pack_d bits end_jd' @ deg
         in Inr (hdr @ replicate (nat (HEADER_SIZE - int (length hdr))) 0)))"

text \<open>The body of the loop over \<open>enumerate(sorted(all_coeffs.keys()))\<close>.\<close>

definition body_table_entry :: "int \<Rightarrow> int \<Rightarrow> int \<Rightarrow> nat \<times> int \<Rightarrow> error + byte list" where
  "body_table_entry data_start n_intervals bytes_per_interval ib =
     (case ib of (i, body_id) \<Rightarrow>
        case name_bytes_of (body_name_of body_id) of Inl e \<Rightarrow> Inl e | Inr name_bytes \<Rightarrow>
        (let data_offset = data_start + int i * n_intervals * bytes_per_interval in
         case pack_i body_id of Inl e \<Rightarrow> Inl e | Inr idb \<Rightarrow>
         case pack_Q data_offset of Inl e \<Rightarrow> Inl e | Inr offb \<Rightarrow>
           Inr (idb @ pack_24s name_bytes @ offb)))"

definition interval_entry :: "(real \<Rightarrow> 64 word) \<Rightarrow> real \<times> real \<Rightarrow> error + byte list" where
  "interval_entry bits iv = (case iv of (jd_start, jd_end) \<Rightarrow> Inr (pack_d bits jd_start @ pack_d bits jd_end))"

definition pack_ds :: "(real \<Rightarrow> 64 word) \<Rightarrow> real list \<Rightarrow> byte list" where
  "pack_ds bits vs = concat (map (pack_d bits) vs)"

definition block_bytes :: "(real \<Rightarrow> 64 word) \<Rightarrow> coeff_block \<Rightarrow> error + byte list" where
  "block_bytes bits coeffs =
     Inr (pack_ds bits (x_coeffs coeffs) @ pack_ds bits (y_coeffs coeffs) @
          pack_ds bits (z_coeffs coeffs))"

definition body_blocks :: "(real \<Rightarrow> 64 word) \<Rightarrow> all_coeffs \<Rightarrow> int \<Rightarrow> error + byte list" where
  "body_blocks bits all_coeffs body_id =
     (case map_of all_coeffs body_id of
        None \<Rightarrow> Inl KeyError
      | Some coeffs_list \<Rightarrow> write_all (block_bytes bits) coeffs_list)"

definition py_enumerate :: "'a list \<Rightarrow> (nat \<times> 'a) list" where
  "py_enumerate xs = zip [0..<length xs] xs"

definition write_eph_file ::
  "(real \<Rightarrow> 64 word) \<Rightarrow> all_coeffs \<Rightarrow> (real \<times> real) list \<Rightarrow> int \<Rightarrow> real \<Rightarrow> real \<Rightarrow> real
     \<Rightarrow> error + byte list" where
  "write_eph_file bits all_coeffs ivs coeff_degree' interval_days' start_jd' end_jd' =
     (let n_bodies = int (length all_coeffs);
          n_intervals = int (length ivs)
      in case pack_header bits n_bodies n_intervals interval_days' start_jd' end_jd' coeff_degree' of
           Inl e \<Rightarrow> Inl e
         | Inr hdr \<Rightarrow>
        (let body_table_size = n_bodies * BODY_ENTRY_SIZE;
             interval_index_size = n_intervals * INTERVAL_ENTRY_SIZE;
             coeffs_per_component = coeff_degree' + 1;
             coeffs_per_interval = coeffs_per_component * 3;
             bytes_per_interval = coeffs_per_interval * 8;
             data_start = HEADER_SIZE + body_table_size + interval_index_size;
             keys = sort (map fst all_coeffs)
         in case write_all (body_table_entry data_start n_intervals bytes_per_interval)
                   (py_enumerate keys) of
              Inl e \<Rightarrow> Inl e
            | Inr table \<Rightarrow>
           (case write_all (interval_entry bits) ivs of
              Inl e \<Rightarrow> Inl e
            | Inr index \<Rightarrow>
           (case write_all (body_blocks bits all_coeffs) keys of
              Inl e \<Rightarrow> Inl e
            | Inr data \<Rightarrow> Inr (hdr @ table @ index @ data)))))"

text \<open>
  What \<open>convert\<close> hands to \<open>_write_eph_file\<close>: every body has one block per interval and
  every component of a block has \<open>coeff_degree + 1\<close> coefficients.
\<close>

definition block_shape :: "int \<Rightarrow> coeff_block \<Rightarrow> bool" where
  "block_shape coeff_degree' c \<longleftrightarrow>
     int (length (x_coeffs c)) = coeff_degree' + 1 \<and>
     int (length (y_coeffs c)) = coeff_degree' + 1 \<and>
     int (length (z_coeffs c)) = coeff_degree' + 1"

definition coeff_matrix :: "all_coeffs \<Rightarrow> nat \<Rightarrow> int \<Rightarrow> bool" where
  "coeff_matrix all_coeffs n_intervals coeff_degree' \<longleftrightarrow>
     distinct (map fst all_coeffs) \<and>
     list_all (\<lambda>kv. length (snd kv) = n_intervals \<and> list_all (block_shape coeff_degree') (snd kv))
       all_coeffs"

text \<open>The fields of a body-table entry as the reader's \<open>_read_body_table\<close> slices them.\<close>

definition entry_at :: "byte list \<Rightarrow> nat \<Rightarrow> byte list" where
  "entry_at f k = slice f (512 + 36 * k) (512 + 36 * k + 36)"

definition entry_body_id :: "byte list \<Rightarrow> int" where
  "entry_body_id entry = sint (word_of_nat (le_nat (slice entry 0 4)) :: 32 word)"

definition entry_name_field :: "byte list \<Rightarrow> byte list" where
  "entry_name_field entry = slice entry 4 28"

definition entry_data_offset :: "byte list \<Rightarrow> nat" where
  "entry_data_offset entry = le_nat (slice entry 28 36)"

text \<open>
  A concrete encoder input for the checks below: two bodies (399 first, as a dict filled
  in that order), three intervals, degree 1. The stand-in for the IEEE encoding only
  tells zero from non-zero.
\<close>

definition example_bits :: "real \<Rightarrow> 64 word" where
  "example_bits v = (if v = 0 then 0 else 1)"

definition example_ivs :: "(real \<times> real) list" where
  "example_ivs = [(2451545, 2451561), (2451561, 2451577), (2451577, 2451593)]"

definition example_coeffs :: all_coeffs where
  "example_coeffs =
     [(399, [\<lparr>x_coeffs = [0, 1], y_coeffs = [2, 3], z_coeffs = [4, 5]\<rparr>,
             \<lparr>x_coeffs = [6, 7], y_coeffs = [8, 9], z_coeffs = [10, 11]\<rparr>,
             \<lparr>x_coeffs = [12, 13], y_coeffs = [14, 15], z_coeffs = [16, 17]\<rparr>]),
      (301, [\<lparr>x_coeffs = [- 1, 1], y_coeffs = [2, 3], z_coeffs = [4, 5]\<rparr>,
             \<lparr>x_coeffs = [6, 7], y_coeffs = [8, 9], z_coeffs = [10, 11]\<rparr>,
             \<lparr>x_coeffs = [12, 13], y_coeffs = [14, 15], z_coeffs = [16, 17]\<rparr>])]"

definition example_file :: "byte list" where
  "example_file =
     (case write_eph_file example_bits example_coeffs example_ivs 1 16 2451545 2451593 of
        Inl e \<Rightarrow> [] | Inr f \<Rightarrow> f)"

section \<open>The raw DAF/SPK reader (raw\_spk\_reader.py)\<close>

datatype endian = Little | Big

text \<open>
  \<open>struct.unpack(f'{endian}i', bs)[0]\<close>: a signed 32-bit integer from exactly four bytes;
  any other length raises \<open>struct.error\<close>.
\<close>

definition le_i32 :: "byte list \<Rightarrow> int" where
  "le_i32 bs = sint (word_of_nat (le_nat bs) :: 32 word)"

definition be_i32 :: "byte list \<Rightarrow> int" where
  "be_i32 bs = sint (word_of_nat (be_nat bs) :: 32 word)"

definition unpack_i :: "endian \<Rightarrow> byte list \<Rightarrow> error + int" where
  "unpack_i en bs =
     (if length bs \<noteq> 4 then Inl StructError
      else Inr (case en of Little \<Rightarrow> le_i32 bs | Big \<Rightarrow> be_i32 bs))"

text \<open>
  The byte-order detection of \<open>read_chebyshev_intervals_raw\<close>: \<open>file_record\<close> is the
  result of \<open>f.read(1024)\<close>, \<open>nd_offset = 8\<close>, and the bare \<open>except\<close> replaces both
  counts by the defaults 2 and 6 while \<open>endian\<close> keeps the value it has at that moment.
  The result is \<open>(endian, nd, ni)\<close>.
\<close>

definition read_nd_ni :: "byte list \<Rightarrow> endian \<times> int \<times> int" where
  "read_nd_ni file_record =
     (let nd_offset = 8 in
      case unpack_i Little (slice file_record nd_offset (nd_offset + 4)) of
        Inl e \<Rightarrow> (Little, 2, 6)
      | Inr nd \<Rightarrow>
      case unpack_i Little (slice file_record (nd_offset + 4) (nd_offset + 8)) of
        Inl e \<Rightarrow> (Little, 2, 6)
      | Inr ni \<Rightarrow>
          if nd > 100 \<or> ni > 100 then
            (case unpack_i Big (slice file_record nd_offset (nd_offset + 4)) of
               Inl e \<Rightarrow> (Big, 2, 6)
             | Inr nd_be \<Rightarrow>
             case unpack_i Big (slice file_record (nd_offset + 4) (nd_offset + 8)) of
               Inl e \<Rightarrow> (Big, 2, 6)
             | Inr ni_be \<Rightarrow> (Big, nd_be, ni_be))
          else (Little, nd, ni))"

text \<open>
  The file record of a little-endian SPK file as NAIF lays it out: \<open>DAF/SPK\<close> and a
  blank, ND = 2, NI = 6, a 60-byte internal name, the three pointers, and the format
  string \<open>LTL-IEEE\<close> at offset 88.
\<close>

definition example_record :: "byte list" where
  "example_record =
     map of_char ''DAF/SPK '' @ [2, 0, 0, 0] @ [6, 0, 0, 0] @ replicate 60 32 @
     [4, 0, 0, 0] @ [4, 0, 0, 0] @ [10, 0, 0, 0] @ map of_char ''LTL-IEEE'' @
     replicate 928 0"

text \<open>The same record written on a big-endian machine.\<close>

definition example_record_be :: "byte list" where
  "example_record_be =
     map of_char ''DAF/SPK '' @ [0, 0, 0, 2] @ [0, 0, 0, 6] @ replicate 60 32 @
     [0, 0, 0, 4] @ [0, 0, 0, 4] @ [0, 0, 0, 10] @ map of_char ''BIG-IEEE'' @
     replicate 928 0"


section \<open>The orbit integrator (integrate\_chiron\_hybrid.py)\<close>

subsection \<open>Kepler's equation in \<open>elements_to_cartesian\<close>\<close>

text \<open>The body of the loop: \<open>E = ma_rad + e * np.sin(E)\<close>.\<close>

definition kepler_step :: "real \<Rightarrow> real \<Rightarrow> real \<Rightarrow> real" where
  "kepler_step ma_rad e E = ma_rad + e * sin E"

text \<open>\<open>for _ in range(n): E = ma_rad + e * np.sin(E)\<close>, returning the final \<open>E\<close>.\<close>

fun kepler_loop :: "nat \<Rightarrow> real \<Rightarrow> real \<Rightarrow> real \<Rightarrow> real" where
  "kepler_loop 0 ma_rad e E = E"
| "kepler_loop (Suc n) ma_rad e E = kepler_loop n ma_rad e (kepler_step ma_rad e E)"

text \<open>
  The eccentric anomaly that \<open>elements_to_cartesian\<close> computes from the mean anomaly
  \<open>ma\<close> (degrees) and the eccentricity \<open>e\<close>: \<open>ma_rad = ma * np.pi / 180.0\<close>,
  \<open>E = ma_rad\<close>, then the loop over \<open>range(10)\<close>.
\<close>

definition eccentric_anomaly :: "real \<Rightarrow> real \<Rightarrow> real" where
  "eccentric_anomaly ma e = (let ma_rad = ma * pi / 180 in kepler_loop 10 ma_rad e ma_rad)"

text \<open>
  The same loop with its history: the values that \<open>E\<close> takes, one for every execution
  of the loop body, in order.
\<close>

fun kepler_iterates :: "nat \<Rightarrow> real \<Rightarrow> real \<Rightarrow> real \<Rightarrow> real list" where
  "kepler_iterates 0 ma_rad e E = []"
| "kepler_iterates (Suc n) ma_rad e E =
     kepler_step ma_rad e E # kepler_iterates n ma_rad e (kepler_step ma_rad e E)"

definition eccentric_anomaly_iterates :: "real \<Rightarrow> real \<Rightarrow> real list" where
  "eccentric_anomaly_iterates ma e =
     (let ma_rad = ma * pi / 180 in kepler_iterates 10 ma_rad e ma_rad)"

text \<open>
  The update of Newton's method for \<open>E - e sin E = M\<close>, as the claim names it, for
  comparison with the loop body.
\<close>

definition newton_step_spec :: "real \<Rightarrow> real \<Rightarrow> real \<Rightarrow> real" where
  "newton_step_spec ma_rad e E = E - (E - e * sin E - ma_rad) / (1 - e * cos E)"


subsection \<open>\<open>compute_acceleration\<close>\<close>

text \<open>
  Positions, velocities and accelerations are NumPy arrays of three doubles, here
  triples of reals. Division by a zero norm, which NumPy answers with an infinity or a
  NaN, is outside the model.
\<close>

type_synonym vec3 = "real \<times> real \<times> real"

fun vadd :: "vec3 \<Rightarrow> vec3 \<Rightarrow> vec3" where
  "vadd (a, b, c) (x, y, z) = (a + x, b + y, c + z)"

fun vsub :: "vec3 \<Rightarrow> vec3 \<Rightarrow> vec3" where
  "vsub (a, b, c) (x, y, z) = (a - x, b - y, c - z)"

fun smul :: "real \<Rightarrow> vec3 \<Rightarrow> vec3" where
  "smul k (x, y, z) = (k * x, k * y, k * z)"

fun dot :: "vec3 \<Rightarrow> vec3 \<Rightarrow> real" where
  "dot (a, b, c) (x, y, z) = a * x + b * y + c * z"

definition vnorm :: "vec3 \<Rightarrow> real" where
  "vnorm v = sqrt (dot v v)"

definition AU :: real where "AU = 149597870700"
definition GM_SUN :: real where "GM_SUN = 132712440018000000000"
definition C_LIGHT :: real where "C_LIGHT = 299792458"

text \<open>The dict \<open>PLANET_GM\<close>, in its order of insertion.\<close>

definition PLANET_GM :: "(string \<times> real) list" where
  "PLANET_GM =
     [(''Mercury'', 22032000000000), (''Venus'', 324860000000000),
      (''Earth'', 398600000000000), (''Mars'', 42828000000000),
      (''Jupiter'', 126690000000000000), (''Saturn'', 37931000000000000),
      (''Uranus'', 5794000000000000), (''Neptune'', 6835100000000000)]"

text \<open>
  \<open>planet_provider.get_position(planet_name, jd_tdb)\<close> is a parameter: a position, or
  the exception that the \<open>try\<close> around the call catches.
\<close>

type_synonym provider = "string \<Rightarrow> real \<Rightarrow> error + vec3"

text \<open>The perturbation \<open>a_pert\<close> of one planet at \<open>planet_pos\<close>.\<close>

definition a_pert :: "real \<Rightarrow> vec3 \<Rightarrow> vec3 \<Rightarrow> vec3" where
  "a_pert gm_planet planet_pos pos =
     (let delta = vsub planet_pos pos;
          delta_mag = vnorm delta;
          planet_r = vnorm planet_pos
      in smul gm_planet (vsub (smul (1 / delta_mag ^ 3) delta) (smul (1 / planet_r ^ 3) planet_pos)))"

text \<open>The loop over \<open>PLANET_GM.items()\<close>; a planet whose position fails is skipped.\<close>

fun planet_loop :: "provider \<Rightarrow> vec3 \<Rightarrow> real \<Rightarrow> (string \<times> real) list \<Rightarrow> vec3 \<Rightarrow> vec3" where
  "planet_loop planet_provider pos jd_tdb [] a_total = a_total"
| "planet_loop planet_provider pos jd_tdb ((planet_name, gm_planet) # rest) a_total =
     (case planet_provider planet_name jd_tdb of
        Inl e \<Rightarrow> planet_loop planet_provider pos jd_tdb rest a_total
      | Inr planet_pos \<Rightarrow>
          planet_loop planet_provider pos jd_tdb rest
            (vadd a_total (a_pert gm_planet planet_pos pos)))"

definition compute_acceleration :: "vec3 \<Rightarrow> vec3 \<Rightarrow> real \<Rightarrow> provider \<Rightarrow> vec3" where
  "compute_acceleration pos vel jd_tdb planet_provider =
     (let r = vnorm pos;
          a_sun = smul (- GM_SUN / r ^ 3) pos;
          v2 = dot vel vel;
          r_dot = dot pos vel / r;
          schwarzschild =
            smul (GM_SUN / (r ^ 3 * C_LIGHT ^ 2))
              (vadd (smul (4 * GM_SUN / r - v2) pos) (smul (4 * r_dot) vel));
          a_total = vadd a_sun schwarzschild
      in planet_loop planet_provider pos jd_tdb PLANET_GM a_total)"

text \<open>
  The acceleration as the claim and the docstring of the function state it, for planet
  positions \<open>planet_pos name\<close>: solar gravity, the full perturbation of every planet of
  \<open>PLANET_GM\<close>, and the Schwarzschild term with \<open>4 (r . v) v\<close>.
\<close>

definition schwarzschild_stated :: "vec3 \<Rightarrow> vec3 \<Rightarrow> vec3" where
  "schwarzschild_stated pos vel =
     smul (GM_SUN / (vnorm pos ^ 3 * C_LIGHT ^ 2))
       (vadd (smul (4 * GM_SUN / vnorm pos - dot vel vel) pos) (smul (4 * dot pos vel) vel))"

definition acceleration_stated :: "(string \<Rightarrow> vec3) \<Rightarrow> vec3 \<Rightarrow> vec3 \<Rightarrow> vec3" where
  "acceleration_stated planet_pos pos vel =
     vadd (vadd (smul (- GM_SUN / vnorm pos ^ 3) pos)
             (foldr (\<lambda>(planet_name, gm_planet) acc. vadd (a_pert gm_planet (planet_pos planet_name) pos) acc)
                PLANET_GM (0, 0, 0)))
       (schwarzschild_stated pos vel)"

text \<open>
  A state for the concrete check: the body at 1 AU on the x axis, moving at 30 km/s
  along y and 1 km/s outwards, and a provider that puts every planet at 5 AU on the y
  axis.
\<close>

definition example_pos :: vec3 where "example_pos = (AU, 0, 0)"
definition example_vel :: vec3 where "example_vel = (1000, 30000, 0)"

definition example_planet_pos :: "string \<Rightarrow> vec3" where
  "example_planet_pos planet_name = (0, 5 * AU, 0)"

definition example_provider :: provider where
  "example_provider planet_name jd_tdb = Inr (example_planet_pos planet_name)"


section \<open>The refit of the encoder (spice2eph.py, \_extract\_coefficients)\<close>

text \<open>
  \<open>spice.spkgps(body_id, et, 'J2000', 0)\<close> is a parameter: the position in km, or
  \<open>None\<close> when the call raises. \<open>np.polynomial.chebyshev.chebfit(nodes, values, degree)\<close>
  is a parameter too.
\<close>

type_synonym spkgps = "int \<Rightarrow> real \<Rightarrow> vec3 option"
type_synonym chebfit = "real list \<Rightarrow> real list \<Rightarrow> nat \<Rightarrow> real list"

text \<open>The node \<open>k\<close> of \<open>np.cos(np.pi * (2 * np.arange(n) + 1) / (2 * n))\<close>.\<close>

definition cheb_node :: "nat \<Rightarrow> nat \<Rightarrow> real" where
  "cheb_node n k = cos (pi * (2 * real k + 1) / (2 * real n))"

definition chebyshev_nodes :: "nat \<Rightarrow> real list" where
  "chebyshev_nodes n = map (cheb_node n) [0..<n]"

text \<open>\<open>et = (jd - J2000_JD) * 86400.0\<close>\<close>

definition jd_to_et :: "real \<Rightarrow> real" where
  "jd_to_et jd = (jd - 2451545) * 86400"

text \<open>
  The loop over \<open>jd_samples\<close>: a position is appended for every sample, the zero
  vector where the call raised.
\<close>

fun sample_loop :: "spkgps \<Rightarrow> int \<Rightarrow> real list \<Rightarrow> vec3 list \<Rightarrow> vec3 list" where
  "sample_loop spk body_id [] positions = positions"
| "sample_loop spk body_id (jd # jds) positions =
     sample_loop spk body_id jds
       (positions @ [case spk body_id (jd_to_et jd) of
                       None \<Rightarrow> (0, 0, 0)
                     | Some state \<Rightarrow> state])"

text \<open>\<open>positions = positions / 149597870.7\<close>\<close>

definition km_to_au :: "vec3 \<Rightarrow> vec3" where
  "km_to_au p = (case p of (px, py, pz) \<Rightarrow>
     (px / (1495978707 / 10), py / (1495978707 / 10), pz / (1495978707 / 10)))"

text \<open>The body of the loop over the intervals: sample, scale, fit the three columns.\<close>

definition interval_block :: "spkgps \<Rightarrow> chebfit \<Rightarrow> int \<Rightarrow> real \<times> real \<Rightarrow> coeff_block" where
  "interval_block spk fit body_id iv =
     (case iv of (jd_start, jd_end) \<Rightarrow>
        (let degree = 7;
             n_samples = degree + 1;
             nodes = chebyshev_nodes n_samples;
             jd_mid = (jd_start + jd_end) / 2;
             jd_half = (jd_end - jd_start) / 2;
             jd_samples = map (\<lambda>node. jd_mid + jd_half * node) nodes;
             positions = map km_to_au (sample_loop spk body_id jd_samples [])
         in \<lparr>x_coeffs = fit nodes (map (\<lambda>p. fst p) positions) degree,
             y_coeffs = fit nodes (map (\<lambda>p. fst (snd p)) positions) degree,
             z_coeffs = fit nodes (map (\<lambda>p. snd (snd p)) positions) degree\<rparr>))"

fun extract_loop ::
  "spkgps \<Rightarrow> chebfit \<Rightarrow> int \<Rightarrow> (real \<times> real) list \<Rightarrow> coeff_block list \<Rightarrow> coeff_block list" where
  "extract_loop spk fit body_id [] coeffs_list = coeffs_list"
| "extract_loop spk fit body_id (iv # ivs) coeffs_list =
     extract_loop spk fit body_id ivs (coeffs_list @ [interval_block spk fit body_id iv])"

definition extract_coefficients ::
  "spkgps \<Rightarrow> chebfit \<Rightarrow> int \<Rightarrow> (real \<times> real) list \<Rightarrow> coeff_block list" where
  "extract_coefficients spk fit body_id ivs = extract_loop spk fit body_id ivs []"

text \<open>The positions that enter the fit of one interval, sample by sample.\<close>

definition sampled_position :: "spkgps \<Rightarrow> int \<Rightarrow> real \<Rightarrow> vec3" where
  "sampled_position spk body_id jd =
     km_to_au (case spk body_id (jd_to_et jd) of None \<Rightarrow> (0, 0, 0) | Some state \<Rightarrow> state)"

text \<open>A source that answers the zero position where \<open>spk\<close> raises.\<close>

definition zero_on_failure :: "spkgps \<Rightarrow> spkgps" where
  "zero_on_failure spk body_id et =
     Some (case spk body_id et of None \<Rightarrow> (0, 0, 0) | Some state \<Rightarrow> state)"

text \<open>
  For the concrete check, the fit that \<open>chebfit\<close> computes for as many samples as
  coefficients at the Chebyshev nodes, in exact arithmetic: the interpolating series,
  whose coefficients the discrete orthogonality of the Chebyshev polynomials gives.
\<close>

fun chebT :: "nat \<Rightarrow> real \<Rightarrow> real" where
  "chebT 0 t = 1"
| "chebT (Suc 0) t = t"
| "chebT (Suc (Suc n)) t = 2 * t * chebT (Suc n) t - chebT n t"

definition chebfit_interp :: chebfit where
  "chebfit_interp nodes vals degree =
     map (\<lambda>k. (if k = 0 then 1 else 2) / real (length nodes) *
               sum_list (map (\<lambda>(v, t). v * chebT k t) (zip vals nodes)))
       [0..<degree + 1]"

text \<open>
  A source that raises for every time after J2000 and otherwise puts the body at 1 AU
  on the x axis, and a 16-day interval centred at J2000.
\<close>

definition example_spk :: spkgps where
  "example_spk body_id et = (if et > 0 then None else Some (1495978707 / 10, 0, 0))"

definition example_interval :: "real \<times> real" where
  "example_interval = (2451537, 2451553)"


section \<open>Properties of the query engine\<close>

subsection \<open>Contiguous interval indexes\<close>

lemma tiles_nonempty: "tiles ivs s e \<Longrightarrow> ivs \<noteq> []"
  by (cases ivs) auto

lemma tiles_hd: "tiles ivs s e \<Longrightarrow> fst (ivs ! 0) = s"
  by (induction ivs s e rule: tiles.induct) auto

lemma tiles_last: "tiles ivs s e \<Longrightarrow> snd (ivs ! (length ivs - 1)) = e"
  by (induction ivs s e rule: tiles.induct) auto

lemma tiles_pos: "tiles ivs s e \<Longrightarrow> i < length ivs \<Longrightarrow> fst (ivs ! i) < snd (ivs ! i)"
proof (induction ivs s e arbitrary: i rule: tiles.induct)
  case (3 a b iv ivs s e)
  then show ?case by (cases i) auto
qed auto

lemma tiles_adjacent:
  "tiles ivs s e \<Longrightarrow> Suc i < length ivs \<Longrightarrow> snd (ivs ! i) = fst (ivs ! Suc i)"
proof (induction ivs s e arbitrary: i rule: tiles.induct)
  case (3 a b iv ivs s e)
  show ?case
  proof (cases i)
    case 0
    with 3 show ?thesis using tiles_hd[of "iv # ivs" b e] by auto
  next
    case (Suc k)
    with 3 show ?thesis by auto
  qed
qed auto

lemma tiles_mono:
  assumes "tiles ivs s e" "j < length ivs" "i < j"
  shows "snd (ivs ! i) \<le> fst (ivs ! j)"
  using assms(3,2)
proof (induction j)
  case 0
  then show ?case by simp
next
  case (Suc j)
  show ?case
  proof (cases "i = j")
    case True
    then show ?thesis using tiles_adjacent[OF assms(1) Suc.prems(2)] by simp
  next
    case False
    then have "i < j" using Suc.prems by simp
    then have "snd (ivs ! i) \<le> fst (ivs ! j)" using Suc by simp
    also have "\<dots> < snd (ivs ! j)" using tiles_pos[OF assms(1), of j] Suc.prems by simp
    also have "\<dots> = fst (ivs ! Suc j)" using tiles_adjacent[OF assms(1) Suc.prems(2)] .
    finally show ?thesis by simp
  qed
qed

lemma tiles_covers:
  "tiles ivs s e \<Longrightarrow> s \<le> jd \<Longrightarrow> jd \<le> e \<Longrightarrow>
   \<exists>i < length ivs. fst (ivs ! i) \<le> jd \<and> jd \<le> snd (ivs ! i)"
proof (induction ivs s e rule: tiles.induct)
  case (3 a b iv ivs s e)
  show ?case
  proof (cases "jd \<le> b")
    case True
    with 3 show ?thesis by (intro exI[of _ 0]) auto
  next
    case False
    with 3 obtain i where "i < length (iv # ivs)"
      "fst ((iv # ivs) ! i) \<le> jd \<and> jd \<le> snd ((iv # ivs) ! i)" by auto
    then show ?thesis by (intro exI[of _ "Suc i"]) auto
  qed
qed auto

lemma tiles_within:
  assumes "tiles ivs s e" "i < length ivs"
  shows "s \<le> fst (ivs ! i) \<and> snd (ivs ! i) \<le> e"
proof -
  have ne: "ivs \<noteq> []" using assms by auto
  have "s \<le> fst (ivs ! i)"
  proof (cases "i = 0")
    case True then show ?thesis using tiles_hd[OF assms(1)] by simp
  next
    case False
    then have "snd (ivs ! 0) \<le> fst (ivs ! i)" using tiles_mono[OF assms(1) assms(2), of 0] by simp
    moreover have "fst (ivs ! 0) < snd (ivs ! 0)" using tiles_pos[OF assms(1), of 0] ne by simp
    ultimately show ?thesis using tiles_hd[OF assms(1)] by simp
  qed
  moreover have "snd (ivs ! i) \<le> e"
  proof (cases "i = length ivs - 1")
    case True then show ?thesis using tiles_last[OF assms(1)] by simp
  next
    case False
    then have lt: "i < length ivs - 1" using assms(2) by simp
    have "snd (ivs ! i) \<le> fst (ivs ! (length ivs - 1))"
      using tiles_mono[OF assms(1) _ lt] ne by simp
    moreover have "fst (ivs ! (length ivs - 1)) < snd (ivs ! (length ivs - 1))"
      using tiles_pos[OF assms(1), of "length ivs - 1"] ne by simp
    ultimately show ?thesis using tiles_last[OF assms(1)] by simp
  qed
  ultimately show ?thesis by simp
qed

subsection \<open>The binary search\<close>

lemma py_get_in: "0 \<le> i \<Longrightarrow> i < int (length xs) \<Longrightarrow> py_get xs i = Inr (xs ! nat i)"
  by (simp add: py_get_def)

declare find_interval_loop.simps [simp del]

lemma loop_sound:
  "0 \<le> left \<Longrightarrow> right < int (length ivs) \<Longrightarrow>
   find_interval_loop ivs jd left right = Inr m \<Longrightarrow>
   left \<le> m \<and> m \<le> right \<and> fst (ivs ! nat m) \<le> jd \<and> jd \<le> snd (ivs ! nat m)"
proof (induction ivs jd left right rule: find_interval_loop.induct)
  case (1 ivs jd left right)
  show ?case
  proof (cases "left \<le> right")
    case False
    with "1.prems" show ?thesis
      by (simp add: find_interval_loop.simps[of ivs jd left right] split: sum.splits)
  next
    case True
    define mid where "mid = (left + right) div 2"
    have mid: "left \<le> mid" "mid \<le> right" "0 \<le> mid" "mid < int (length ivs)"
      using True "1.prems" by (auto simp: mid_def)
    obtain a b where ab: "ivs ! nat mid = (a, b)" by (cases "ivs ! nat mid")
    have get: "py_get ivs mid = Inr (a, b)" using py_get_in[OF mid(3,4)] ab by simp
    consider "jd < a" | "\<not> jd < a" "jd > b" | "\<not> jd < a" "\<not> jd > b" by blast
    then show ?thesis
    proof cases
      case 1
      then have "find_interval_loop ivs jd left (mid - 1) = Inr m"
        using "1.prems"(3) True get
        by (simp add: find_interval_loop.simps[of ivs jd left right] mid_def[symmetric])
      then show ?thesis
        using "1.IH"(1)[OF True mid_def get refl 1] "1.prems" mid by auto
    next
      case 2
      then have "find_interval_loop ivs jd (mid + 1) right = Inr m"
        using "1.prems"(3) True get
        by (simp add: find_interval_loop.simps[of ivs jd left right] mid_def[symmetric])
      then show ?thesis
        using "1.IH"(2)[OF True mid_def get refl 2] "1.prems" mid by auto
    next
      case 3
      then have "m = mid"
        using "1.prems"(3) True get
        by (simp add: find_interval_loop.simps[of ivs jd left right] mid_def[symmetric])
      then show ?thesis using 3 ab mid by auto
    qed
  qed
qed


lemma loop_complete:
  "tiles ivs s e \<Longrightarrow> 0 \<le> left \<Longrightarrow> right < int (length ivs) \<Longrightarrow>
   (\<forall>i. i < nat left \<longrightarrow> snd (ivs ! i) < jd) \<Longrightarrow>
   (\<forall>i. nat (right + 1) \<le> i \<and> i < length ivs \<longrightarrow> jd < fst (ivs ! i)) \<Longrightarrow>
   (\<exists>m. find_interval_loop ivs jd left right = Inr m) \<or>
   (find_interval_loop ivs jd left right = Inl OutOfRange \<and>
    (\<forall>i < length ivs. \<not> (fst (ivs ! i) \<le> jd \<and> jd \<le> snd (ivs ! i))))"
proof (induction ivs jd left right rule: find_interval_loop.induct)
  case (1 ivs jd left right)
  note t = "1.prems"(1)
  have ne: "ivs \<noteq> []" using t by auto
  show ?case
  proof (cases "left \<le> right")
    case False
    have get0: "py_get ivs 0 = Inr (ivs ! 0)" using ne by (simp add: py_get_def)
    have "find_interval_loop ivs jd left right = Inl OutOfRange"
      using False get0 by (simp add: find_interval_loop.simps[of ivs jd left right])
    moreover have "\<not> (fst (ivs ! i) \<le> jd \<and> jd \<le> snd (ivs ! i))" if "i < length ivs" for i
    proof (cases "i < nat left")
      case True
      then show ?thesis using "1.prems"(4) by auto
    next
      case False
      then have "nat (right + 1) \<le> i" using \<open>\<not> left \<le> right\<close> by auto
      then show ?thesis using "1.prems"(5) that by auto
    qed
    ultimately show ?thesis by blast
  next
    case True
    define mid where "mid = (left + right) div 2"
    have mid: "left \<le> mid" "mid \<le> right" "0 \<le> mid" "mid < int (length ivs)"
      using True "1.prems" by (auto simp: mid_def)
    obtain a b where ab: "ivs ! nat mid = (a, b)" by (cases "ivs ! nat mid")
    have get: "py_get ivs mid = Inr (a, b)" using py_get_in[OF mid(3,4)] ab by simp
    have lt: "a < b" using tiles_pos[OF t, of "nat mid"] mid ab by auto
    consider "jd < a" | "\<not> jd < a" "jd > b" | "\<not> jd < a" "\<not> jd > b" by blast
    then show ?thesis
    proof cases
      case 1
      have eq: "find_interval_loop ivs jd left right = find_interval_loop ivs jd left (mid - 1)"
        using 1 True get
        by (simp add: find_interval_loop.simps[of ivs jd left right] mid_def[symmetric])
      have up: "\<forall>i. nat (mid - 1 + 1) \<le> i \<and> i < length ivs \<longrightarrow> jd < fst (ivs ! i)"
      proof (intro allI impI)
        fix i assume i: "nat (mid - 1 + 1) \<le> i \<and> i < length ivs"
        show "jd < fst (ivs ! i)"
        proof (cases "i = nat mid")
          case True
          then show ?thesis using 1 ab by simp
        next
          case False
          then have "nat mid < i" using i by auto
          then have "snd (ivs ! nat mid) \<le> fst (ivs ! i)" using tiles_mono[OF t _ ] i by auto
          then show ?thesis using 1 ab lt by simp
        qed
      qed
      show ?thesis
        unfolding eq
        using "1.IH"(1)[OF True mid_def get refl 1 t "1.prems"(2) _ "1.prems"(4) up] mid by simp
    next
      case 2
      have eq: "find_interval_loop ivs jd left right = find_interval_loop ivs jd (mid + 1) right"
        using 2 True get
        by (simp add: find_interval_loop.simps[of ivs jd left right] mid_def[symmetric])
      have lo: "\<forall>i. i < nat (mid + 1) \<longrightarrow> snd (ivs ! i) < jd"
      proof (intro allI impI)
        fix i assume i: "i < nat (mid + 1)"
        show "snd (ivs ! i) < jd"
        proof (cases "i = nat mid")
          case True
          then show ?thesis using 2 ab by simp
        next
          case False
          then have "i < nat mid" using i mid by auto
          then have "snd (ivs ! i) \<le> fst (ivs ! nat mid)" using tiles_mono[OF t _ ] mid by auto
          then show ?thesis using 2 ab lt by simp
        qed
      qed
      show ?thesis
        unfolding eq
        using "1.IH"(2)[OF True mid_def get refl 2 t _ "1.prems"(3) lo "1.prems"(5)] mid by simp
    next
      case 3
      then have "find_interval_loop ivs jd left right = Inr mid"
        using True get
        by (simp add: find_interval_loop.simps[of ivs jd left right] mid_def[symmetric])
      then show ?thesis by blast
    qed
  qed
qed

lemma find_interval_tiles:
  assumes "tiles (intervals rd) s e"
  shows "s \<le> jd \<and> jd \<le> e \<Longrightarrow>
         \<exists>m. find_interval rd jd = Inr (int m) \<and> m < length (intervals rd) \<and>
              fst (intervals rd ! m) \<le> jd \<and> jd \<le> snd (intervals rd ! m)"
    and "\<not> (s \<le> jd \<and> jd \<le> e) \<Longrightarrow> find_interval rd jd = Inl OutOfRange"
proof -
  let ?ivs = "intervals rd"
  have ne: "?ivs \<noteq> []" using assms by auto
  have c: "(\<exists>m. find_interval rd jd = Inr m) \<or>
   (find_interval rd jd = Inl OutOfRange \<and>
    (\<forall>i < length ?ivs. \<not> (fst (?ivs ! i) \<le> jd \<and> jd \<le> snd (?ivs ! i))))"
    unfolding find_interval_def
    by (rule loop_complete[OF assms]) auto
  have snd: "0 \<le> m \<and> m \<le> int (length ?ivs) - 1 \<and> fst (?ivs ! nat m) \<le> jd \<and> jd \<le> snd (?ivs ! nat m)"
    if "find_interval rd jd = Inr m" for m
    using loop_sound[of 0 "int (length ?ivs) - 1" ?ivs jd m] that
    by (simp add: find_interval_def)
  {
    assume r: "s \<le> jd \<and> jd \<le> e"
    from tiles_covers[OF assms] r obtain i where "i < length ?ivs"
      "fst (?ivs ! i) \<le> jd \<and> jd \<le> snd (?ivs ! i)" by blast
    with c obtain m where m: "find_interval rd jd = Inr m" by blast
    from snd[OF m] have "find_interval rd jd = Inr (int (nat m))" "nat m < length ?ivs"
      "fst (?ivs ! nat m) \<le> jd \<and> jd \<le> snd (?ivs ! nat m)" using m by auto
    then show "\<exists>m. find_interval rd jd = Inr (int m) \<and> m < length ?ivs \<and>
              fst (?ivs ! m) \<le> jd \<and> jd \<le> snd (?ivs ! m)" by blast
  }
  {
    assume r: "\<not> (s \<le> jd \<and> jd \<le> e)"
    show "find_interval rd jd = Inl OutOfRange"
    proof (rule ccontr)
      assume "find_interval rd jd \<noteq> Inl OutOfRange"
      with c obtain m where m: "find_interval rd jd = Inr m" by blast
      from snd[OF m] have "nat m < length ?ivs" "fst (?ivs ! nat m) \<le> jd" "jd \<le> snd (?ivs ! nat m)"
        using ne by auto
      with tiles_within[OF assms, of "nat m"] r show False by auto
    qed
  }
qed

subsection \<open>Queries\<close>

lemma read_coefficients_ok:
  assumes "bodies rd body_id = Some body" "m < n"
    and "data_offset body + n * coeff_size rd \<le> length (file_bytes rd)"
  shows "\<exists>cs. read_coefficients rd body_id m = Inr cs"
proof -
  let ?d = "coeff_degree (header rd)"
  let ?data = "take (coeff_size rd) (drop (coeff_offset body rd m) (file_bytes rd))"
  have "Suc m * coeff_size rd \<le> n * coeff_size rd"
    using assms(2) by (intro mult_le_mono1) simp
  then have "coeff_offset body rd m + coeff_size rd \<le> length (file_bytes rd)"
    using assms(3) by (simp add: coeff_offset_def)
  then have len: "length ?data = 24 * ?d" by (simp add: coeff_size_def)
  then obtain ws where ws: "frombuffer ?data = Inr ws" "length ws = 3 * ?d"
    by (simp add: frombuffer_def)
  then show ?thesis
    using assms(1) by (simp add: read_coefficients_def reshape3_def Let_def)
qed

lemma compute_in_range_ok:
  assumes t: "tiles (intervals rd) s e"
    and b: "bodies rd body_id = Some body"
    and f: "data_offset body + length (intervals rd) * coeff_size rd \<le> length (file_bytes rd)"
    and r: "s \<le> jd" "jd \<le> e"
  shows "\<exists>res. compute val rd body_id jd = Inr res"
proof -
  from find_interval_tiles(1)[OF t, of jd] r obtain m where
    m: "find_interval rd jd = Inr (int m)" "m < length (intervals rd)" by blast
  obtain a c where ac: "intervals rd ! m = (a, c)" by (cases "intervals rd ! m")
  have "a < c" using tiles_pos[OF t m(2)] ac by simp
  then obtain tn where tn: "normalize_time jd (a, c) = Inr tn" by (simp add: normalize_time_def)
  from read_coefficients_ok[OF b m(2) f] obtain cs where
    cs: "read_coefficients rd body_id m = Inr cs" by blast
  show ?thesis
    using m ac tn cs by (simp add: compute_def py_get_def)
qed

lemma py_get_not_OutOfRange: "py_get xs i \<noteq> Inl OutOfRange"
  by (simp add: py_get_def Let_def)

lemma normalize_time_not_OutOfRange: "normalize_time jd iv \<noteq> Inl OutOfRange"
  by (cases iv) (simp add: normalize_time_def)

lemma frombuffer_not_OutOfRange: "frombuffer data \<noteq> Inl OutOfRange"
  by (simp add: frombuffer_def)

lemma reshape3_not_OutOfRange: "reshape3 d cs \<noteq> Inl OutOfRange"
  by (simp add: reshape3_def)

lemma read_coefficients_not_OutOfRange:
  "bodies rd body_id = Some body \<Longrightarrow> read_coefficients rd body_id m \<noteq> Inl OutOfRange"
  using frombuffer_not_OutOfRange reshape3_not_OutOfRange
  by (auto simp: read_coefficients_def Let_def split: sum.splits)

lemma compute_OutOfRange_iff_find:
  assumes "bodies rd body_id = Some body"
  shows "compute val rd body_id jd = Inl OutOfRange \<longleftrightarrow> find_interval rd jd = Inl OutOfRange"
proof (cases "find_interval rd jd")
  case (Inl e)
  then show ?thesis by (simp add: compute_def)
next
  case (Inr m)
  have "compute val rd body_id jd \<noteq> Inl OutOfRange"
    using py_get_not_OutOfRange[of "intervals rd" m] normalize_time_not_OutOfRange[of jd]
      read_coefficients_not_OutOfRange[OF assms, of "nat m"]
    by (auto simp: compute_def Inr split: sum.splits)
  then show ?thesis using Inr by simp
qed

lemma tiles_span: "tiles ivs s e \<Longrightarrow> s < e"
  by (induction ivs s e rule: tiles.induct) auto

text \<open>
  Claim C7. On a container whose interval index tiles \<open>[start_jd, end_jd]\<close> and for a
  body of the body table, \<open>compute\<close> raises the out-of-range error exactly for
  \<open>jd < start_jd\<close> or \<open>jd > end_jd\<close>. When the file holds the blocks the reader asks
  for, the queries at exactly \<open>start_jd\<close> and at exactly \<open>end_jd\<close> return a result.
\<close>

theorem compute_out_of_range_iff:
  assumes "tiles (intervals rd) (start_jd (header rd)) (end_jd (header rd))"
    and "bodies rd body_id = Some body"
  shows "(compute val rd body_id jd = Inl OutOfRange \<longleftrightarrow>
            jd < start_jd (header rd) \<or> jd > end_jd (header rd)) \<and>
         (data_offset body + length (intervals rd) * coeff_size rd \<le> length (file_bytes rd) \<longrightarrow>
            (\<exists>res. compute val rd body_id (start_jd (header rd)) = Inr res) \<and>
            (\<exists>res. compute val rd body_id (end_jd (header rd)) = Inr res))"
proof (intro conjI impI)
  let ?s = "start_jd (header rd)" and ?e = "end_jd (header rd)"
  show "compute val rd body_id jd = Inl OutOfRange \<longleftrightarrow> jd < ?s \<or> jd > ?e"
  proof (cases "?s \<le> jd \<and> jd \<le> ?e")
    case True
    then obtain m where "find_interval rd jd = Inr (int m)"
      using find_interval_tiles(1)[OF assms(1)] by blast
    then show ?thesis using True compute_OutOfRange_iff_find[OF assms(2)] by auto
  next
    case False
    then have "find_interval rd jd = Inl OutOfRange"
      using find_interval_tiles(2)[OF assms(1)] by blast
    then show ?thesis using False compute_OutOfRange_iff_find[OF assms(2)] by auto
  qed
next
  assume f: "data_offset body + length (intervals rd) * coeff_size rd \<le> length (file_bytes rd)"
  have "start_jd (header rd) < end_jd (header rd)" using tiles_span[OF assms(1)] .
  then show "\<exists>res. compute val rd body_id (start_jd (header rd)) = Inr res"
    and "\<exists>res. compute val rd body_id (end_jd (header rd)) = Inr res"
    using compute_in_range_ok[OF assms f] by auto
qed

declare first_probe.simps [simp del]

lemma loop_boundary:
  "tiles ivs s e \<Longrightarrow> 0 \<le> left \<Longrightarrow> right < int (length ivs) \<Longrightarrow>
   left \<le> int j \<Longrightarrow> int j + 1 \<le> right \<Longrightarrow> jd = snd (ivs ! j) \<Longrightarrow>
   find_interval_loop ivs jd left right = Inr (first_probe left right (int j)) \<and>
   (first_probe left right (int j) = int j \<or> first_probe left right (int j) = int j + 1)"
proof (induction ivs jd left right rule: find_interval_loop.induct)
  case (1 ivs jd left right)
  note t = "1.prems"(1)
  have lr: "left \<le> right" using "1.prems" by simp
  define mid where "mid = (left + right) div 2"
  have mid: "left \<le> mid" "mid \<le> right" "0 \<le> mid" "mid < int (length ivs)"
    using lr "1.prems" by (auto simp: mid_def)
  have j: "Suc j < length ivs" using "1.prems" by simp
  obtain a b where ab: "ivs ! nat mid = (a, b)" by (cases "ivs ! nat mid")
  have get: "py_get ivs mid = Inr (a, b)" using py_get_in[OF mid(3,4)] ab by simp
  have adj: "snd (ivs ! j) = fst (ivs ! Suc j)" using tiles_adjacent[OF t j] .
  have pj: "fst (ivs ! j) < snd (ivs ! j)" using tiles_pos[OF t, of j] j by simp
  have pj1: "fst (ivs ! Suc j) < snd (ivs ! Suc j)" using tiles_pos[OF t j] .
  have pm: "a < b" using tiles_pos[OF t, of "nat mid"] mid ab by auto
  have jd: "jd = snd (ivs ! j)" using "1.prems" by simp
  consider "mid = int j" | "mid = int j + 1" | "int j + 1 < mid" | "mid < int j" by linarith
  then show ?case
  proof cases
    case 1
    then have "nat mid = j" by simp
    then have "\<not> jd < a" "\<not> jd > b" using ab pj jd by auto
    then have "find_interval_loop ivs jd left right = Inr mid"
      using lr get by (simp add: find_interval_loop.simps[of ivs jd left right] mid_def[symmetric])
    moreover have "first_probe left right (int j) = mid"
      using lr 1 by (simp add: first_probe.simps[of left right "int j"] mid_def[symmetric])
    ultimately show ?thesis using 1 by simp
  next
    case 2
    then have "nat mid = Suc j" by simp
    then have "\<not> jd < a" "\<not> jd > b" using ab pj1 adj jd by auto
    then have "find_interval_loop ivs jd left right = Inr mid"
      using lr get by (simp add: find_interval_loop.simps[of ivs jd left right] mid_def[symmetric])
    moreover have "first_probe left right (int j) = mid"
      using lr 2 by (simp add: first_probe.simps[of left right "int j"] mid_def[symmetric])
    ultimately show ?thesis using 2 by simp
  next
    case 3
    then have "Suc j < nat mid" by simp
    then have "snd (ivs ! Suc j) \<le> fst (ivs ! nat mid)" using tiles_mono[OF t _ ] mid by simp
    then have lt: "jd < a" using ab pj1 adj jd by simp
    have e1: "find_interval_loop ivs jd left right = find_interval_loop ivs jd left (mid - 1)"
      using lt lr get by (simp add: find_interval_loop.simps[of ivs jd left right] mid_def[symmetric])
    have e2: "first_probe left right (int j) = first_probe left (mid - 1) (int j)"
      using lr 3 by (simp add: first_probe.simps[of left right "int j"] mid_def[symmetric])
    show ?thesis
      unfolding e1 e2
      using "1.IH"(1)[OF lr mid_def get refl lt t "1.prems"(2) _ "1.prems"(4) _ jd] mid 3 by simp
  next
    case 4
    then have "j < length ivs" "nat mid < j" using j mid by auto
    then have "snd (ivs ! nat mid) \<le> fst (ivs ! j)" using tiles_mono[OF t] by simp
    then have gt: "\<not> jd < a" "jd > b" using ab pj pm jd by auto
    have e1: "find_interval_loop ivs jd left right = find_interval_loop ivs jd (mid + 1) right"
      using gt lr get by (simp add: find_interval_loop.simps[of ivs jd left right] mid_def[symmetric])
    have e2: "first_probe left right (int j) = first_probe (mid + 1) right (int j)"
      using lr 4 by (simp add: first_probe.simps[of left right "int j"] mid_def[symmetric])
    show ?thesis
      unfolding e1 e2
      using "1.IH"(2)[OF lr mid_def get refl gt t _ "1.prems"(3) _ "1.prems"(5) jd] mid 4 by simp
  qed
qed

text \<open>
  Claim C2, as the code has it. At an interior boundary (the end of interval \<open>j\<close>, which
  is the start of interval \<open>j + 1\<close>) the binary search returns the one of the two
  intervals whose index the bisection of \<open>[0, n - 1]\<close> reaches first as a midpoint,
  \<open>first_probe 0 (n - 1) j\<close>: when that is \<open>j\<close> the normalized time is \<open>+1\<close>, when
  it is \<open>j + 1\<close> the normalized time is \<open>-1\<close>.
\<close>

theorem find_interval_boundary:
  assumes t: "tiles (intervals rd) s e"
    and j: "Suc j < length (intervals rd)"
    and jd: "jd = snd (intervals rd ! j)"
  shows "find_interval rd jd = Inr (first_probe 0 (int (length (intervals rd)) - 1) (int j)) \<and>
         ((first_probe 0 (int (length (intervals rd)) - 1) (int j) = int j \<and>
           normalize_time jd (intervals rd ! j) = Inr 1) \<or>
          (first_probe 0 (int (length (intervals rd)) - 1) (int j) = int j + 1 \<and>
           normalize_time jd (intervals rd ! Suc j) = Inr (- 1)))"
proof -
  let ?ivs = "intervals rd"
  let ?p = "first_probe 0 (int (length ?ivs) - 1) (int j)"
  have lb: "find_interval_loop ?ivs jd 0 (int (length ?ivs) - 1) = Inr ?p \<and>
            (?p = int j \<or> ?p = int j + 1)"
    using j by (intro loop_boundary[OF t _ _ _ _ jd]) auto
  have adj: "snd (?ivs ! j) = fst (?ivs ! Suc j)" using tiles_adjacent[OF t j] .
  have pj: "fst (?ivs ! j) < snd (?ivs ! j)" using tiles_pos[OF t, of j] j by simp
  have pj1: "fst (?ivs ! Suc j) < snd (?ivs ! Suc j)" using tiles_pos[OF t j] .
  have n1: "normalize_time jd (?ivs ! j) = Inr 1"
    using pj jd by (cases "?ivs ! j") (simp add: normalize_time_def field_simps)
  have n2: "normalize_time jd (?ivs ! Suc j) = Inr (- 1)"
    using pj1 jd adj by (cases "?ivs ! Suc j") (simp add: normalize_time_def field_simps)
  show ?thesis using lb n1 n2 by (auto simp: find_interval_def)
qed

text \<open>
  On the three-interval container the boundary 2451577 between the intervals 1 and 2
  belongs to the earlier interval 1, which is the first midpoint.
\<close>

theorem find_interval_boundary_witness:
  "tiles (intervals example_reader) 2451545 2451593 \<and>
   Suc 1 < length (intervals example_reader) \<and>
   (2451577 :: real) = snd (intervals example_reader ! 1) \<and>
   first_probe 0 (int (length (intervals example_reader)) - 1) (int 1) = 1 \<and>
   find_interval example_reader 2451577 = Inr 1 \<and>
   normalize_time 2451577 (intervals example_reader ! 1) = Inr 1"
proof -
  have t: "tiles (intervals example_reader) 2451545 2451593"
    by (simp add: example_reader_def)
  have j: "Suc 1 < length (intervals example_reader)"
    by (simp add: example_reader_def)
  have jd: "(2451577 :: real) = snd (intervals example_reader ! 1)"
    by (simp add: example_reader_def)
  have p: "first_probe 0 (int (length (intervals example_reader)) - 1) (int 1) = 1"
    by (simp add: example_reader_def first_probe.simps)
  show ?thesis
    using find_interval_boundary [OF t j jd] t j jd p by simp
qed

text \<open>
  Claim C2 as stated fails on the three-interval container with boundaries 2451545,
  2451561, 2451577 and 2451593: the query at 2451561, the end of interval 0 and the start
  of interval 1, probes the middle interval first and returns it, at normalized time
  \<open>-1\<close>; it does not return the earlier interval 0.
\<close>

theorem find_interval_boundary_counterexample:
  "tiles (intervals example_reader) 2451545 2451593 \<and>
   snd (intervals example_reader ! 0) = 2451561 \<and>
   fst (intervals example_reader ! 1) = 2451561 \<and>
   find_interval example_reader 2451561 = Inr 1 \<and>
   find_interval example_reader 2451561 \<noteq> Inr 0 \<and>
   normalize_time 2451561 (intervals example_reader ! 1) = Inr (- 1)"
  by (simp add: example_reader_def find_interval_def find_interval_loop.simps py_get_def
      normalize_time_def)

theorem compute_out_of_range_iff_witness:
  "tiles (intervals example_reader) (start_jd (header example_reader))
     (end_jd (header example_reader)) \<and>
   bodies example_reader 399 = Some \<lparr>name = ''Earth'', data_offset = 596\<rparr> \<and>
   596 + length (intervals example_reader) * coeff_size example_reader
     \<le> length (file_bytes example_reader) \<and>
   (compute example_val example_reader 399 2451600 = Inl OutOfRange \<longleftrightarrow>
      (2451600 :: real) < start_jd (header example_reader) \<or>
      2451600 > end_jd (header example_reader)) \<and>
   (\<exists>res. compute example_val example_reader 399 (start_jd (header example_reader)) = Inr res) \<and>
   (\<exists>res. compute example_val example_reader 399 (end_jd (header example_reader)) = Inr res)"
proof -
  have t: "tiles (intervals example_reader) (start_jd (header example_reader))
     (end_jd (header example_reader))"
    by (simp add: example_reader_def)
  have b: "bodies example_reader 399 = Some \<lparr>name = ''Earth'', data_offset = 596\<rparr>"
    by (simp add: example_reader_def)
  have f: "596 + length (intervals example_reader) * coeff_size example_reader
     \<le> length (file_bytes example_reader)"
    by code_simp
  show ?thesis
    using compute_out_of_range_iff [OF t b, of example_val 2451600] t b f by simp
qed

text \<open>
  Claim C10. A successful \<open>compute\<close> returns the dict with the single key \<open>pos\<close>, whose
  value has exactly three components; no velocity is part of the result.
\<close>

theorem compute_result_shape:
  "compute val rd body_id jd = Inr res \<Longrightarrow> \<exists>x y z. res = [(''pos'', [x, y, z])]"
  by (auto simp: compute_def split: sum.splits)

theorem compute_result_shape_witness:
  "compute example_val example_reader 399 2451545 = Inr [(''pos'', [0, 1, 2])] \<and>
   (\<exists>x y z. [(''pos'', [0, 1, 2 :: real])] = [(''pos'', [x, y, z])])"
proof -
  have c: "compute example_val example_reader 399 2451545 = Inr [(''pos'', [0, 1, 2])]"
    by code_simp
  show ?thesis
    using compute_result_shape [OF c] c by simp
qed

text \<open>
  Claim C1. The encoder writes blocks of \<open>3 * (degree + 1)\<close> doubles, but the reader takes
  the header's \<open>coeff_degree\<close> itself as the number of coefficients of a component: it
  reads \<open>3 * degree\<close> doubles at \<open>data_offset + interval_idx * 3 * degree * 8\<close>. On the
  example container (degree 1, blocks of six doubles from offset 596) the query for
  interval 1 reads three doubles at offset 620, the doubles numbered 3, 4 and 5 of the
  block of interval 0, where the block of interval 1 holds the doubles 6 to 11 at offset
  644.
\<close>

theorem read_coefficients_short_block:
  "coeff_size example_reader = 3 * 1 * 8 \<and>
   coeff_offset \<lparr>name = ''Earth'', data_offset = 596\<rparr> example_reader 1 = 620 \<and>
   read_coefficients example_reader 399 1 = Inr [[3], [4], [5]]"
  by code_simp

section \<open>Properties of the encoder\<close>

subsection \<open>Sizes of the written parts\<close>

lemma length_le_bytes: "length (le_bytes n v) = n"
  by (induction n arbitrary: v) auto

lemma le_nat_le_bytes: "le_nat (le_bytes n v) = v mod 256 ^ n"
proof (induction n arbitrary: v)
  case 0
  then show ?case by simp
next
  case (Suc n)
  have "unat (of_nat (v mod 256) :: byte) = v mod 256"
    by (simp add: unat_of_nat)
  then show ?case
    using Suc[of "v div 256"] by (simp add: mod_mult2_eq)
qed

lemma slice_append_left: "length xs = a \<Longrightarrow> slice (xs @ ys) a (a + n) = take n ys"
  by (simp add: slice_def)

lemma slice_shift: "slice (xs @ ys) (length xs + a) (length xs + b) = slice ys a b"
  by (simp add: slice_def)

lemma write_all_chunks:
  assumes "write_all pack items = Inr out"
    and "\<And>item b. item \<in> set items \<Longrightarrow> pack item = Inr b \<Longrightarrow> length b = n"
  shows "length out = n * length items \<and>
         (\<forall>k < length items. pack (items ! k) = Inr (slice out (n * k) (n * k + n)))"
  using assms
proof (induction items arbitrary: out)
  case Nil
  then show ?case by simp
next
  case (Cons item items)
  from Cons.prems(1) obtain entry later where
    e: "pack item = Inr entry" and l: "write_all pack items = Inr later"
    and out: "out = entry @ later"
    by (auto split: sum.splits)
  have len: "length entry = n" using Cons.prems(2)[OF _ e] by simp
  have ih: "length later = n * length items \<and>
         (\<forall>k < length items. pack (items ! k) = Inr (slice later (n * k) (n * k + n)))"
  proof (rule Cons.IH[OF l])
    fix it b assume "it \<in> set items" "pack it = Inr b"
    then show "length b = n" using Cons.prems(2)[of it b] by simp
  qed
  show ?case
  proof (intro conjI allI impI)
    show "length out = n * length (item # items)" using out len ih by simp
  next
    fix k assume k: "k < length (item # items)"
    show "pack ((item # items) ! k) = Inr (slice out (n * k) (n * k + n))"
    proof (cases k)
      case 0
      then show ?thesis using e out len by (simp add: slice_def)
    next
      case (Suc j)
      then have "slice out (n * k) (n * k + n) = slice later (n * j) (n * j + n)"
        using out len slice_shift[of entry later "n * j" "n * j + n"] by (simp add: add.assoc)
      then show ?thesis using Suc ih k by simp
    qed
  qed
qed

lemma write_all_length_sum:
  assumes "write_all pack items = Inr out"
    and "\<And>item b. item \<in> set items \<Longrightarrow> pack item = Inr b \<Longrightarrow> length b = n"
  shows "length out = n * length items"
  using write_all_chunks[OF assms] by simp

lemma pack_I_length: "pack_I v = Inr b \<Longrightarrow> length b = 4"
  by (auto simp: pack_I_def length_le_bytes split: if_splits)

lemma pack_i_length: "pack_i v = Inr b \<Longrightarrow> length b = 4"
  by (auto simp: pack_i_def length_le_bytes split: if_splits)

lemma pack_Q_length: "pack_Q v = Inr b \<Longrightarrow> length b = 8"
  by (auto simp: pack_Q_def length_le_bytes split: if_splits)

lemma pack_d_length: "length (pack_d bits v) = 8"
  by (simp add: pack_d_def length_le_bytes)

lemma pack_ds_length: "length (pack_ds bits vs) = 8 * length vs"
  by (induction vs) (auto simp: pack_ds_def pack_d_length)

lemma pack_24s_length: "length (pack_24s bs) = 24"
  by (simp add: pack_24s_def)

lemma pack_header_length:
  "pack_header bits nb ni days s e d = Inr h \<Longrightarrow> length h = 512"
  by (auto simp: pack_header_def Let_def MAGIC_def HEADER_SIZE_def pack_d_length
      split: sum.splits dest!: pack_I_length)

lemma pack_header_degree:
  "pack_header bits nb ni days s e d = Inr h \<Longrightarrow> 0 \<le> d"
  by (auto simp: pack_header_def pack_I_def split: sum.splits if_splits)

lemma body_table_entry_length:
  "body_table_entry ds ni bpi ib = Inr b \<Longrightarrow> length b = 36"
  by (cases ib)
     (auto simp: body_table_entry_def Let_def pack_24s_length
      split: sum.splits dest!: pack_i_length pack_Q_length)

lemma interval_entry_length: "interval_entry bits iv = Inr b \<Longrightarrow> length b = 16"
  by (cases iv) (auto simp: interval_entry_def pack_d_length)

lemma block_bytes_length:
  "block_shape d c \<Longrightarrow> block_bytes bits c = Inr b \<Longrightarrow> length b = nat (24 * (d + 1))"
  by (auto simp: block_shape_def block_bytes_def pack_ds_length)

lemma body_blocks_length:
  assumes "coeff_matrix ac n d" "body_id \<in> set (map fst ac)" "body_blocks bits ac body_id = Inr b"
  shows "length b = nat (24 * (d + 1)) * n"
proof -
  from assms(2) obtain cl where cl: "map_of ac body_id = Some cl"
    by (metis map_of_eq_None_iff not_Some_eq set_map)
  then have mem: "(body_id, cl) \<in> set ac" by (rule map_of_SomeD)
  have shape: "length cl = n" "list_all (block_shape d) cl"
    using assms(1) mem by (auto simp: coeff_matrix_def list_all_iff)
  have w: "write_all (block_bytes bits) cl = Inr b"
    using assms(3) cl by (simp add: body_blocks_def)
  have "length b = nat (24 * (d + 1)) * length cl"
  proof (rule write_all_length_sum[OF w])
    fix c bb assume "c \<in> set cl" "block_bytes bits c = Inr bb"
    then show "length bb = nat (24 * (d + 1))"
      using shape(2) block_bytes_length[of d c bits bb] by (simp add: list_all_iff)
  qed
  then show ?thesis using shape(1) by simp
qed

subsection \<open>The body table and the file layout\<close>

lemma slice_append_within: "b \<le> length xs \<Longrightarrow> slice (xs @ ys) a b = slice xs a b"
  by (simp add: slice_def)

lemma sint_le_bytes_4:
  assumes "- (2 ^ 31) \<le> v" "v < 2 ^ 31"
  shows "sint (word_of_nat (le_nat (le_bytes 4 (nat (v mod 2 ^ 32)))) :: 32 word) = v"
proof -
  have "le_nat (le_bytes 4 (nat (v mod 2 ^ 32))) = nat (v mod 2 ^ 32)"
    by (simp add: le_nat_le_bytes nat_mod_distrib [symmetric])
  moreover have "(word_of_nat (nat (v mod 2 ^ 32)) :: 32 word) = word_of_int v"
    by (simp add: word_of_int_nat [symmetric] word_of_int_eq_iff take_bit_eq_mod)
  moreover have "sint (word_of_int v :: 32 word) = v"
    using assms by (simp add: signed_of_int signed_take_bit_int_eq_self)
  ultimately show ?thesis by simp
qed

lemma py_enumerate_nth: "k < length xs \<Longrightarrow> py_enumerate xs ! k = (k, xs ! k)"
  by (simp add: py_enumerate_def)

lemma length_py_enumerate: "length (py_enumerate xs) = length xs"
  by (simp add: py_enumerate_def)

lemma body_table_entry_fields:
  assumes "body_table_entry ds ni bpi (i, body_id) = Inr b"
  shows "entry_body_id b = body_id"
    and "int (entry_data_offset b) = ds + int i * ni * bpi"
    and "name_bytes_of (body_name_of body_id) = Inr (entry_name_field b)"
proof -
  from assms obtain nb idb offb where
    nb: "name_bytes_of (body_name_of body_id) = Inr nb"
    and idb: "pack_i body_id = Inr idb"
    and offb: "pack_Q (ds + int i * ni * bpi) = Inr offb"
    and b: "b = idb @ pack_24s nb @ offb"
    by (auto simp: body_table_entry_def Let_def split: sum.splits)
  have li: "length idb = 4" using pack_i_length[OF idb] .
  have ln: "length (pack_24s nb) = 24" by (rule pack_24s_length)
  have lo: "length offb = 8" using pack_Q_length[OF offb] .
  have r: "- (2 ^ 31) \<le> body_id" "body_id < 2 ^ 31" "idb = le_bytes 4 (nat (body_id mod 2 ^ 32))"
    using idb by (auto simp: pack_i_def split: if_splits)
  have "slice b 0 4 = idb" using li b by (simp add: slice_def)
  then show "entry_body_id b = body_id"
    using sint_le_bytes_4[OF r(1,2)] r(3) by (simp add: entry_body_id_def)
  have o: "0 \<le> ds + int i * ni * bpi" "ds + int i * ni * bpi < 2 ^ 64"
    "offb = le_bytes 8 (nat (ds + int i * ni * bpi))"
    using offb by (auto simp: pack_Q_def split: if_splits)
  have "slice b 28 36 = offb" using li ln lo b by (simp add: slice_def)
  then have "entry_data_offset b = nat (ds + int i * ni * bpi) mod 256 ^ 8"
    using o(3) by (simp add: entry_data_offset_def le_nat_le_bytes)
  also have "\<dots> = nat (ds + int i * ni * bpi)"
    using o(1,2) by (simp add: nat_less_iff)
  finally show "int (entry_data_offset b) = ds + int i * ni * bpi" using o(1) by simp
  have nbl: "length nb = 24"
    using nb by (auto simp: name_bytes_of_def ljust_def split: sum.splits)
  then have "pack_24s nb = nb" by (simp add: pack_24s_def)
  then have "slice b 4 28 = nb" using li nbl b by (simp add: slice_def)
  then show "name_bytes_of (body_name_of body_id) = Inr (entry_name_field b)"
    using nb by (simp add: entry_name_field_def)
qed

lemma write_eph_file_parts:
  assumes "write_eph_file bits ac ivs d days s e = Inr f"
  obtains hdr table index data where
    "f = hdr @ table @ index @ data"
    "pack_header bits (int (length ac)) (int (length ivs)) days s e d = Inr hdr"
    "write_all (body_table_entry (512 + int (length ac) * 36 + int (length ivs) * 16)
        (int (length ivs)) ((d + 1) * 3 * 8)) (py_enumerate (sort (map fst ac))) = Inr table"
    "write_all (interval_entry bits) ivs = Inr index"
    "write_all (body_blocks bits ac) (sort (map fst ac)) = Inr data"
  using assms
  by (auto simp: write_eph_file_def Let_def HEADER_SIZE_def BODY_ENTRY_SIZE_def
      INTERVAL_ENTRY_SIZE_def split: sum.splits)

lemma write_eph_file_entry:
  assumes w: "write_eph_file bits ac ivs d days s e = Inr f" and k: "k < length ac"
  shows "body_table_entry (512 + int (length ac) * 36 + int (length ivs) * 16)
           (int (length ivs)) ((d + 1) * 3 * 8) (k, sort (map fst ac) ! k) = Inr (entry_at f k)"
proof -
  from w obtain hdr table index data where
    f: "f = hdr @ table @ index @ data"
    and h: "pack_header bits (int (length ac)) (int (length ivs)) days s e d = Inr hdr"
    and t: "write_all (body_table_entry (512 + int (length ac) * 36 + int (length ivs) * 16)
        (int (length ivs)) ((d + 1) * 3 * 8)) (py_enumerate (sort (map fst ac))) = Inr table"
    by (rule write_eph_file_parts)
  let ?keys = "sort (map fst ac)"
  have lh: "length hdr = 512" using pack_header_length[OF h] .
  have ch: "length table = 36 * length (py_enumerate ?keys) \<and>
     (\<forall>j < length (py_enumerate ?keys).
        body_table_entry (512 + int (length ac) * 36 + int (length ivs) * 16)
          (int (length ivs)) ((d + 1) * 3 * 8) (py_enumerate ?keys ! j)
        = Inr (slice table (36 * j) (36 * j + 36)))"
    by (rule write_all_chunks[OF t]) (rule body_table_entry_length)
  have lk: "length ?keys = length ac" by simp
  have lt: "length table = 36 * length ac" using ch by (simp add: length_py_enumerate)
  have "entry_at f k = slice (table @ index @ data) (36 * k) (36 * k + 36)"
    using slice_shift[of hdr "table @ index @ data" "36 * k" "36 * k + 36"] lh
    by (simp add: entry_at_def f add.assoc)
  also have "\<dots> = slice table (36 * k) (36 * k + 36)"
    using k lt by (intro slice_append_within) simp
  finally have ea: "slice table (36 * k) (36 * k + 36) = entry_at f k" by simp
  have en: "py_enumerate ?keys ! k = (k, ?keys ! k)"
    using k lk by (simp add: py_enumerate_nth)
  have "k < length (py_enumerate ?keys)" using k lk by (simp add: length_py_enumerate)
  with ch have "body_table_entry (512 + int (length ac) * 36 + int (length ivs) * 16)
          (int (length ivs)) ((d + 1) * 3 * 8) (py_enumerate ?keys ! k)
        = Inr (slice table (36 * k) (36 * k + 36))" by blast
  then show ?thesis unfolding en ea .
qed

text \<open>
  Claim C6. A file written for \<open>B\<close> bodies, \<open>I\<close> intervals and degree \<open>d\<close>, every body
  with one block per interval and \<open>d + 1\<close> coefficients per component, has
  \<open>512 + 36 B + 16 I + 24 (d + 1) I B\<close> bytes, and the entry \<open>k\<close> of its body table
  carries the \<open>k\<close>-th body id in sorted order with
  \<open>data_offset = 512 + B * 36 + I * 16 + k * I * 3 * (d + 1) * 8\<close>.
\<close>

theorem write_eph_file_layout:
  assumes m: "coeff_matrix all_coeffs (length ivs) d"
    and w: "write_eph_file bits all_coeffs ivs d days s e = Inr f"
    and k: "k < length all_coeffs"
  shows "int (length f) =
           512 + 36 * int (length all_coeffs) + 16 * int (length ivs) +
           24 * (d + 1) * int (length ivs) * int (length all_coeffs) \<and>
         int (entry_data_offset (entry_at f k)) =
           512 + int (length all_coeffs) * 36 + int (length ivs) * 16 +
           int k * int (length ivs) * 3 * (d + 1) * 8 \<and>
         entry_body_id (entry_at f k) = sort (map fst all_coeffs) ! k"
proof -
  from w obtain hdr table index data where
    f: "f = hdr @ table @ index @ data"
    and h: "pack_header bits (int (length all_coeffs)) (int (length ivs)) days s e d = Inr hdr"
    and t: "write_all (body_table_entry (512 + int (length all_coeffs) * 36 + int (length ivs) * 16)
        (int (length ivs)) ((d + 1) * 3 * 8)) (py_enumerate (sort (map fst all_coeffs))) = Inr table"
    and i: "write_all (interval_entry bits) ivs = Inr index"
    and c: "write_all (body_blocks bits all_coeffs) (sort (map fst all_coeffs)) = Inr data"
    by (rule write_eph_file_parts)
  let ?keys = "sort (map fst all_coeffs)"
  have d0: "0 \<le> d" using pack_header_degree[OF h] .
  have lh: "length hdr = 512" using pack_header_length[OF h] .
  have lt: "length table = 36 * length all_coeffs"
    using write_all_length_sum[OF t body_table_entry_length] by (simp add: length_py_enumerate)
  have li: "length index = 16 * length ivs"
    using write_all_length_sum[OF i interval_entry_length] by simp
  have ld: "length data = nat (24 * (d + 1)) * length ivs * length ?keys"
  proof (rule write_all_length_sum[OF c])
    fix body_id b assume "body_id \<in> set ?keys" "body_blocks bits all_coeffs body_id = Inr b"
    then show "length b = nat (24 * (d + 1)) * length ivs"
      using body_blocks_length[OF m, of body_id bits b] by simp
  qed
  have "int (length data) = 24 * (d + 1) * int (length ivs) * int (length all_coeffs)"
    using ld d0 by simp
  then have size: "int (length f) =
           512 + 36 * int (length all_coeffs) + 16 * int (length ivs) +
           24 * (d + 1) * int (length ivs) * int (length all_coeffs)"
    using f lh lt li by simp
  from body_table_entry_fields(1,2)[OF write_eph_file_entry[OF w k]]
  have "entry_body_id (entry_at f k) = ?keys ! k"
    and "int (entry_data_offset (entry_at f k)) =
           512 + int (length all_coeffs) * 36 + int (length ivs) * 16 +
           int k * int (length ivs) * ((d + 1) * 3 * 8)"
    by simp_all
  with size show ?thesis by (simp add: algebra_simps)
qed

lemma example_written:
  "write_eph_file example_bits example_coeffs example_ivs 1 16 2451545 2451593 = Inr example_file"
proof -
  have "\<not> isl (write_eph_file example_bits example_coeffs example_ivs 1 16 2451545 2451593)"
    by code_simp
  then show ?thesis
    by (cases "write_eph_file example_bits example_coeffs example_ivs 1 16 2451545 2451593")
       (simp_all add: example_file_def)
qed

lemma example_matrix: "coeff_matrix example_coeffs (length example_ivs) 1"
  by code_simp


theorem write_eph_file_layout_witness:
  "coeff_matrix example_coeffs (length example_ivs) 1 \<and>
   write_eph_file example_bits example_coeffs example_ivs 1 16 2451545 2451593 = Inr example_file \<and>
   (1 :: nat) < length example_coeffs \<and>
   int (length example_file) = 920 \<and>
   int (entry_data_offset (entry_at example_file 1)) = 776 \<and>
   entry_body_id (entry_at example_file 1) = 399"
proof -
  have k: "(1 :: nat) < length example_coeffs" by (simp add: example_coeffs_def)
  have s: "sort (map fst example_coeffs) ! 1 = 399" by (simp add: example_coeffs_def)
  have l: "length example_coeffs = 2" "length example_ivs = 3"
    by (simp_all add: example_coeffs_def example_ivs_def)
  show ?thesis
    using write_eph_file_layout [OF example_matrix example_written k] example_matrix
      example_written k s l by simp
qed


subsection \<open>The name field\<close>











section \<open>Properties of the raw DAF/SPK reader\<close>

lemma length_slice: "b \<le> length xs \<Longrightarrow> length (slice xs a b) = b - a"
  by (simp add: slice_def)

text \<open>
  Claim C5, as the code has it. The two counts are read as little-endian 32-bit integers
  at the byte offsets 8 and 12 of the file record, and they are decoded again as
  big-endian exactly when one of the two little-endian values is greater than 100.
\<close>

theorem read_nd_ni_endian:
  assumes "16 \<le> length file_record"
  shows "read_nd_ni file_record =
           (if le_i32 (slice file_record 8 12) > 100 \<or> le_i32 (slice file_record 12 16) > 100
            then (Big, be_i32 (slice file_record 8 12), be_i32 (slice file_record 12 16))
            else (Little, le_i32 (slice file_record 8 12), le_i32 (slice file_record 12 16)))"
proof -
  have "length (slice file_record 8 12) = 4" "length (slice file_record 12 16) = 4"
    using assms by (simp_all add: length_slice)
  then show ?thesis
    by (simp add: read_nd_ni_def unpack_i_def Let_def)
qed

lemma example_record_fields:
  "length example_record = 1024"
  "slice example_record 8 12 = [2, 0, 0, 0]"
  "slice example_record 12 16 = [6, 0, 0, 0]"
  "slice example_record 88 92 = [76, 84, 76, 45]"
  "slice example_record 92 96 = [73, 69, 69, 69]"
  by (simp_all add: example_record_def slice_def)

lemma example_record_be_fields:
  "length example_record_be = 1024"
  "slice example_record_be 8 12 = [0, 0, 0, 2]"
  "slice example_record_be 12 16 = [0, 0, 0, 6]"
  by (simp_all add: example_record_be_def slice_def)

lemma i32_values:
  "le_i32 [2, 0, 0, 0] = 2" "le_i32 [6, 0, 0, 0] = 6"
  "le_i32 [0, 0, 0, 2] = 33554432" "le_i32 [0, 0, 0, 6] = 100663296"
  "be_i32 [0, 0, 0, 2] = 2" "be_i32 [0, 0, 0, 6] = 6"
  "le_i32 [76, 84, 76, 45] = 759977036" "le_i32 [73, 69, 69, 69] = 1162167625"
  by (simp_all add: le_i32_def be_i32_def be_nat_def)

theorem read_nd_ni_endian_witness:
  "16 \<le> length example_record_be \<and>
   le_i32 (slice example_record_be 8 12) = 33554432 \<and>
   read_nd_ni example_record_be = (Big, 2, 6)"
proof -
  have l: "16 \<le> length example_record_be" by (simp add: example_record_be_fields)
  show ?thesis
    using read_nd_ni_endian [OF l] l by (simp add: example_record_be_fields i32_values)
qed

text \<open>
  Claim C5 as stated fails on the file record of any little-endian SPK file: the bytes at
  the offsets 88 and 92 are the text \<open>LTL-IEEE\<close>, which read as little-endian integers
  are far above the threshold, and yet the reader keeps little-endian, because it looks
  at the offsets 8 and 12, where ND = 2 and NI = 6.
\<close>

theorem read_nd_ni_offsets_counterexample:
  "length example_record = 1024 \<and>
   le_i32 (slice example_record 88 92) = 759977036 \<and>
   le_i32 (slice example_record 92 96) = 1162167625 \<and>
   read_nd_ni example_record = (Little, 2, 6)"
  by (simp add: read_nd_ni_def unpack_i_def Let_def example_record_fields i32_values)

section \<open>Properties of the orbit integrator\<close>

subsection \<open>The iteration for the eccentric anomaly\<close>

lemma kepler_loop_funpow:
  "kepler_loop n ma_rad e E = ((kepler_step ma_rad e) ^^ n) E"
  by (induction n arbitrary: E) (simp_all add: funpow_swap1)

lemma length_kepler_iterates: "length (kepler_iterates n ma_rad e E) = n"
  by (induction n arbitrary: E) simp_all

lemma kepler_iterates_nth:
  "k < n \<Longrightarrow> kepler_iterates n ma_rad e E ! k = ((kepler_step ma_rad e) ^^ Suc k) E"
proof (induction n arbitrary: E k)
  case 0
  then show ?case by simp
next
  case (Suc n)
  show ?case
  proof (cases k)
    case 0
    then show ?thesis by simp
  next
    case (Suc j)
    then have "j < n" using Suc.prems by simp
    then show ?thesis using Suc.IH[of j "kepler_step ma_rad e E"] Suc
      by (simp add: funpow_swap1)
  qed
qed

lemma kepler_loop_last:
  "kepler_loop n ma_rad e E = last (E # kepler_iterates n ma_rad e E)"
  by (induction n arbitrary: E) simp_all

text \<open>
  Claim C8, as the code has it. The eccentric anomaly is obtained from \<open>E = M\<close> (the mean
  anomaly in radians) by exactly ten executions of the loop body, for every input: the
  loop has no convergence test and never ends early.
\<close>

theorem eccentric_anomaly_ten_iterations:
  "eccentric_anomaly ma e = ((kepler_step (ma * pi / 180) e) ^^ 10) (ma * pi / 180) \<and>
   length (eccentric_anomaly_iterates ma e) = 10 \<and>
   eccentric_anomaly ma e = last (eccentric_anomaly_iterates ma e)"
proof -
  have "eccentric_anomaly_iterates ma e \<noteq> []"
    using length_kepler_iterates[of 10 "ma * pi / 180" e "ma * pi / 180"]
    by (auto simp: eccentric_anomaly_iterates_def Let_def)
  then show ?thesis
    by (simp add: eccentric_anomaly_def eccentric_anomaly_iterates_def Let_def
        kepler_loop_funpow [symmetric] length_kepler_iterates kepler_loop_last)
qed

lemma kepler_step_circular: "kepler_step ma_rad 0 E = ma_rad"
  by (simp add: kepler_step_def)

lemma kepler_iterates_circular: "kepler_iterates n ma_rad 0 E = replicate n ma_rad"
  by (induction n arbitrary: E) (simp_all add: kepler_step_circular)

text \<open>
  Claim C8 as stated fails twice. For a circular orbit (\<open>e = 0\<close>, mean anomaly 30 degrees)
  the first execution of the loop body already changes \<open>E\<close> by 0, less than \<open>10^-12\<close>,
  and the loop still runs all ten times. For \<open>e = 1/2\<close> and the same mean anomaly the
  first update of the loop is not the update of Newton's method.
\<close>

theorem eccentric_anomaly_counterexample:
  "eccentric_anomaly_iterates 30 0 = replicate 10 (pi / 6) \<and>
   \<bar>eccentric_anomaly_iterates 30 0 ! 0 - 30 * pi / 180\<bar> < 1 / 10 ^ 12 \<and>
   length (eccentric_anomaly_iterates 30 0) = 10 \<and>
   kepler_step (pi / 6) (1 / 2) (pi / 6) = pi / 6 + 1 / 4 \<and>
   newton_step_spec (pi / 6) (1 / 2) (pi / 6) = pi / 6 + 1 / (4 - sqrt 3) \<and>
   kepler_step (pi / 6) (1 / 2) (pi / 6) \<noteq> newton_step_spec (pi / 6) (1 / 2) (pi / 6)"
proof -
  have it: "eccentric_anomaly_iterates 30 0 = replicate 10 (pi / 6)"
    by (simp add: eccentric_anomaly_iterates_def kepler_iterates_circular)
  have ks: "kepler_step (pi / 6) (1 / 2) (pi / 6) = pi / 6 + 1 / 4"
    by (simp add: kepler_step_def sin_30)
  have s3: "sqrt 3 < 4"
    by (rule real_less_lsqrt) simp_all
  have ns: "newton_step_spec (pi / 6) (1 / 2) (pi / 6) = pi / 6 + 1 / (4 - sqrt 3)"
    using s3 by (simp add: newton_step_spec_def sin_30 cos_30 field_simps)
  have s0: "0 < sqrt 3" by simp
  have "(1 :: real) / 4 \<noteq> 1 / (4 - sqrt 3)"
    using s0 s3 by (simp add: field_simps)
  then have ne: "kepler_step (pi / 6) (1 / 2) (pi / 6) \<noteq> newton_step_spec (pi / 6) (1 / 2) (pi / 6)"
    unfolding ks ns by simp
  show ?thesis using it ks ns ne by simp
qed

subsection \<open>The acceleration\<close>

lemma vadd_assoc: "vadd (vadd u v) w = vadd u (vadd v w)"
  by (cases u; cases v; cases w) simp

lemma vadd_commute: "vadd u v = vadd v u"
  by (cases u; cases v) simp

lemma vadd_zero: "vadd u (0, 0, 0) = u"
  by (cases u) simp

lemma planet_loop_total:
  "(\<And>n. planet_provider n jd = Inr (planet_pos n)) \<Longrightarrow>
   planet_loop planet_provider pos jd gms a =
     vadd a (foldr (\<lambda>(planet_name, gm_planet) acc. vadd (a_pert gm_planet (planet_pos planet_name) pos) acc)
                gms (0, 0, 0))"
proof (induction gms arbitrary: a)
  case Nil
  then show ?case by (simp add: vadd_zero)
next
  case (Cons g gms)
  obtain n gm where g: "g = (n, gm)" by (cases g)
  show ?case using Cons by (simp add: g vadd_assoc)
qed

lemma compute_acceleration_total:
  assumes "\<And>n. planet_provider n jd = Inr (planet_pos n)"
  shows "compute_acceleration pos vel jd planet_provider =
     vadd (vadd (smul (- GM_SUN / vnorm pos ^ 3) pos)
       (smul (GM_SUN / (vnorm pos ^ 3 * C_LIGHT ^ 2))
              (vadd (smul (4 * GM_SUN / vnorm pos - dot vel vel) pos)
                    (smul (4 * (dot pos vel / vnorm pos)) vel))))
       (foldr (\<lambda>(planet_name, gm_planet) acc. vadd (a_pert gm_planet (planet_pos planet_name) pos) acc)
                PLANET_GM (0, 0, 0))"
  by (simp add: compute_acceleration_def Let_def
      planet_loop_total[of planet_provider jd planet_pos, OF assms])

lemma vadd_swap_cancel: "vadd (vadd s c) w = vadd (vadd s w) t \<Longrightarrow> c = t"
  by (cases s; cases c; cases w; cases t) simp

lemma AU_pos: "1 < AU" by (simp add: AU_def)

lemma vnorm_example_pos: "vnorm example_pos = AU"
  using AU_pos by (simp add: vnorm_def example_pos_def)

lemma dot_example: "dot example_pos example_vel = AU * 1000" "dot example_vel example_vel = 901000000"
  by (simp_all add: example_pos_def example_vel_def)


lemma constants_pos: "0 < GM_SUN" "0 < C_LIGHT"
  by (simp_all add: GM_SUN_def C_LIGHT_def)

text \<open>
  Claim C3. The code divides the product \<open>r . v\<close> by \<open>|r|\<close> before it enters the
  Schwarzschild term (\<open>r_dot\<close>), so that the term has \<open>4 (r . v) / |r| v\<close> where the claim
  and the docstring have \<open>4 (r . v) v\<close>. On the example state, with every planet position
  available, the acceleration that the code returns is not the stated sum.
\<close>

theorem compute_acceleration_not_stated:
  "compute_acceleration example_pos example_vel 2451545 example_provider \<noteq>
   acceleration_stated example_planet_pos example_pos example_vel"
proof
  let ?W = "foldr (\<lambda>(planet_name, gm_planet) acc.
               vadd (a_pert gm_planet (example_planet_pos planet_name) example_pos) acc)
             PLANET_GM (0, 0, 0)"
  let ?S = "smul (- GM_SUN / vnorm example_pos ^ 3) example_pos"
  let ?C = "smul (GM_SUN / (vnorm example_pos ^ 3 * C_LIGHT ^ 2))
              (vadd (smul (4 * GM_SUN / vnorm example_pos - dot example_vel example_vel) example_pos)
                    (smul (4 * (dot example_pos example_vel / vnorm example_pos)) example_vel))"
  let ?T = "schwarzschild_stated example_pos example_vel"
  assume eq: "compute_acceleration example_pos example_vel 2451545 example_provider =
   acceleration_stated example_planet_pos example_pos example_vel"
  have code: "compute_acceleration example_pos example_vel 2451545 example_provider =
      vadd (vadd ?S ?C) ?W"
    by (rule compute_acceleration_total) (simp add: example_provider_def)
  have "vadd (vadd ?S ?C) ?W = vadd (vadd ?S ?W) ?T"
    using eq unfolding code acceleration_stated_def .
  then have ct: "?C = ?T" by (rule vadd_swap_cancel)
  define k where "k = GM_SUN / (AU ^ 3 * C_LIGHT ^ 2)"
  define m where "m = 4 * GM_SUN / AU - 901000000"
  have k: "k \<noteq> 0" using constants_pos AU_pos by (simp add: k_def)
  have c1: "fst ?C = k * (m * AU + 4 * 1000 * 1000)"
    using AU_pos
    by (simp add: vnorm_example_pos dot_example k_def m_def)
       (simp add: example_pos_def example_vel_def)
  have t1: "fst ?T = k * (m * AU + 4 * (AU * 1000) * 1000)"
    by (simp add: schwarzschild_stated_def vnorm_example_pos dot_example k_def m_def)
       (simp add: example_pos_def example_vel_def)
  from ct have "fst ?C = fst ?T" by simp
  then have "k * (m * AU + 4 * 1000 * 1000) = k * (m * AU + 4 * (AU * 1000) * 1000)"
    unfolding c1 t1 .
  then have "AU = 1" using k by simp
  then show False using AU_pos by simp
qed

section \<open>Properties of the refit\<close>

lemma sample_loop_map:
  "sample_loop spk body_id jds positions =
     positions @ map (\<lambda>jd. case spk body_id (jd_to_et jd) of
                       None \<Rightarrow> (0, 0, 0) | Some state \<Rightarrow> state) jds"
  by (induction jds arbitrary: positions) simp_all

lemma extract_loop_map:
  "extract_loop spk fit body_id ivs coeffs_list =
     coeffs_list @ map (interval_block spk fit body_id) ivs"
  by (induction ivs arbitrary: coeffs_list) simp_all

lemma sample_loop_zero_on_failure:
  "sample_loop (zero_on_failure spk) body_id jds positions = sample_loop spk body_id jds positions"
  by (simp add: sample_loop_map zero_on_failure_def)

lemma interval_block_zero_on_failure:
  "interval_block (zero_on_failure spk) fit body_id iv = interval_block spk fit body_id iv"
  by (simp add: interval_block_def sample_loop_zero_on_failure)

lemma interval_block_samples:
  "interval_block spk fit body_id (jd_start, jd_end) =
     (let nodes = chebyshev_nodes 8;
          positions = map (\<lambda>node. sampled_position spk body_id
                               ((jd_start + jd_end) / 2 + (jd_end - jd_start) / 2 * node)) nodes
      in \<lparr>x_coeffs = fit nodes (map (\<lambda>p. fst p) positions) 7,
          y_coeffs = fit nodes (map (\<lambda>p. fst (snd p)) positions) 7,
          z_coeffs = fit nodes (map (\<lambda>p. snd (snd p)) positions) 7\<rparr>)"
  by (simp add: interval_block_def Let_def sample_loop_map sampled_position_def comp_def)

text \<open>
  Claim C4, as the code has it. Every interval yields a block, the fit of its eight
  sampled positions; a sample whose call fails enters the fit as the zero position and
  the other samples enter it unchanged; and the result is the one that a source
  answering zero instead of failing produces, so that no count of failures is part of it.
\<close>

theorem extract_coefficients_failed_samples:
  "extract_coefficients spk fit body_id ivs = map (interval_block spk fit body_id) ivs \<and>
   length (extract_coefficients spk fit body_id ivs) = length ivs \<and>
   extract_coefficients (zero_on_failure spk) fit body_id ivs =
     extract_coefficients spk fit body_id ivs \<and>
   interval_block spk fit body_id (jd_start, jd_end) =
     (let nodes = chebyshev_nodes 8;
          positions = map (\<lambda>node. sampled_position spk body_id
                               ((jd_start + jd_end) / 2 + (jd_end - jd_start) / 2 * node)) nodes
      in \<lparr>x_coeffs = fit nodes (map (\<lambda>p. fst p) positions) 7,
          y_coeffs = fit nodes (map (\<lambda>p. fst (snd p)) positions) 7,
          z_coeffs = fit nodes (map (\<lambda>p. snd (snd p)) positions) 7\<rparr>) \<and>
   sampled_position spk body_id jd =
     (case spk body_id (jd_to_et jd) of None \<Rightarrow> (0, 0, 0) | Some state \<Rightarrow> km_to_au state)"
proof -
  have "sampled_position spk body_id jd =
     (case spk body_id (jd_to_et jd) of None \<Rightarrow> (0, 0, 0) | Some state \<Rightarrow> km_to_au state)"
    by (simp add: sampled_position_def km_to_au_def split: option.splits)
  then show ?thesis
    using interval_block_samples[of spk fit body_id jd_start jd_end]
    by (simp add: extract_coefficients_def extract_loop_map interval_block_zero_on_failure)
qed

lemma cheb_node_8_sign:
  assumes "k < 8"
  shows "0 < cheb_node 8 k \<longleftrightarrow> k < 4"
proof (cases "k < 4")
  case True
  have "0 < pi * (2 * real k + 1) / (2 * real 8)" by simp
  moreover have "pi * (2 * real k + 1) / (2 * real 8) < pi / 2"
    using True by (simp add: field_simps)
  ultimately have "0 < cos (pi * (2 * real k + 1) / (2 * real 8))"
    by (intro cos_gt_zero_pi) (use pi_gt_zero in linarith)+
  then show ?thesis using True by (simp add: cheb_node_def)
next
  case False
  define y where "y = pi - pi * (2 * real k + 1) / (2 * real 8)"
  have "0 < y" using assms by (simp add: y_def field_simps)
  moreover have "y < pi / 2" using False by (simp add: y_def field_simps)
  ultimately have "0 < cos y"
    by (intro cos_gt_zero_pi) (use pi_gt_zero in linarith)+
  moreover have "cos (pi * (2 * real k + 1) / (2 * real 8)) = - cos y"
    by (simp add: y_def)
  ultimately show ?thesis using False by (simp add: cheb_node_def)
qed

lemma upt_8: "[0..<8] = [0, 1, 2, 3, 4, 5, 6, 7]"
  by code_simp

lemma example_sample:
  "fst (sampled_position example_spk body_id (2451545 + 8 * t)) = (if 0 < t then 0 else 1)"
  by (simp add: sampled_position_def example_spk_def jd_to_et_def km_to_au_def)

lemma example_block_x0:
  "x_coeffs (interval_block example_spk chebfit_interp 399 example_interval) ! 0 = 1 / 2"
proof -
  let ?f = "\<lambda>t :: real. if 0 < t then 0 else (1 :: real)"
  have vals: "map (\<lambda>p. fst p) (map (\<lambda>node. sampled_position example_spk 399
               ((2451537 + 2451553) / 2 + (2451553 - 2451537) / 2 * node)) (chebyshev_nodes 8))
             = map ?f (chebyshev_nodes 8)"
    using example_sample[of 399] by (simp add: comp_def)
  have z: "zip (map ?f (chebyshev_nodes 8)) (chebyshev_nodes 8) =
           map (\<lambda>t. (?f t, t)) (chebyshev_nodes 8)"
    by (simp add: zip_map1 zip_same_conv_map)
  have s: "sum_list (map ?f (chebyshev_nodes 8)) = 4"
    by (simp add: chebyshev_nodes_def upt_8 cheb_node_8_sign)
  have "x_coeffs (interval_block example_spk chebfit_interp 399 example_interval) ! 0 =
        chebfit_interp (chebyshev_nodes 8) (map ?f (chebyshev_nodes 8)) 7 ! 0"
    unfolding example_interval_def interval_block_samples Let_def vals by simp
  also have "\<dots> = 1 / real (length (chebyshev_nodes 8)) *
        sum_list (map (\<lambda>(v, t). v * chebT 0 t) (zip (map ?f (chebyshev_nodes 8)) (chebyshev_nodes 8)))"
    by (simp add: chebfit_interp_def upt_8)
  also have "\<dots> = 1 / 8 * sum_list (map ?f (chebyshev_nodes 8))"
    unfolding z by (simp add: comp_def chebyshev_nodes_def)
  also have "\<dots> = 1 / 2" unfolding s by simp
  finally show ?thesis .
qed

text \<open>
  Claim C4 as stated fails on the example: the call for the first sample of the
  interval fails, and the first coefficient of the x column of the block is 1/2, the
  mean of the four samples that succeeded and the four zeros; the block is not zero.
\<close>

theorem extract_coefficients_counterexample:
  "example_spk 399 (jd_to_et (2451545 + 8 * cheb_node 8 0)) = None \<and>
   length (extract_coefficients example_spk chebfit_interp 399 [example_interval]) = 1 \<and>
   x_coeffs (extract_coefficients example_spk chebfit_interp 399 [example_interval] ! 0) ! 0
     = 1 / 2"
proof -
  have "0 < cheb_node 8 0" using cheb_node_8_sign[of 0] by simp
  then have "example_spk 399 (jd_to_et (2451545 + 8 * cheb_node 8 0)) = None"
    by (simp add: example_spk_def jd_to_et_def)
  then show ?thesis
    using example_block_x0 by (simp add: extract_coefficients_def extract_loop_map)
qed

end
